theory Spec2Isabelle
  imports Complex_Main "HOL-Library.Word" "HOL-Library.Product_Lexorder"
begin

unbundle bit_operations_syntax

section \<open>Machine types of SoapyLMS7/Streaming.cpp\<close>

text \<open>
  The driver is compiled for a 64-bit target: \<^verbatim>\<open>size_t\<close> and \<^verbatim>\<open>uint64_t\<close> are 64-bit
  unsigned words (arithmetic wraps), \<^verbatim>\<open>int\<close> is a 32-bit word read as two's complement
  where the source compares it with zero, \<^verbatim>\<open>long long\<close> is a 64-bit word.
\<close>

type_synonym size_t = "64 word"
type_synonym uint64_t = "64 word"
type_synonym cint = "32 word"
type_synonym longlong = "64 word"

section \<open>Stream alignment helper: fastForward\<close>

text \<open>
  \<^verbatim>\<open>std::memmove(buff, buff + off, n)\<close> on a buffer held as the list of its bytes: the
  \<open>n\<close> bytes that start at offset \<open>off\<close> are copied to the front, the bytes behind them stay.
  The C++ call is only defined when \<open>off + n\<close> lies within the buffer.
\<close>

definition memmove :: "'a list \<Rightarrow> nat \<Rightarrow> nat \<Rightarrow> 'a list" where
  "memmove buff off n = take n (drop off buff) @ drop n buff"

text \<open>
  \<^verbatim>\<open>fastForward(buff, numWritten, elemSize, oldHeadTime, desiredHeadTime)\<close> (lines 324-332).
  \<^verbatim>\<open>numWritten\<close> is a reference parameter: the model returns the buffer and the new count.
\<close>

definition fastForward ::
  "'a list \<Rightarrow> size_t \<Rightarrow> size_t \<Rightarrow> uint64_t \<Rightarrow> uint64_t \<Rightarrow> 'a list \<times> size_t" where
  "fastForward buff numWritten elemSize oldHeadTime desiredHeadTime =
     (let numPop = min (desiredHeadTime - oldHeadTime) numWritten;
          numMove = numWritten - numPop
      in (memmove buff (unat (numPop * elemSize)) (unat (numMove * elemSize)),
          numWritten - numPop))"

section \<open>Constants of the SoapySDR interface\<close>

text \<open>
  Values of SoapySDR's Constants.h, Errors.h and Formats.h, headers of the library the
  driver is written against. A direction is an \<^verbatim>\<open>int\<close> that is only ever compared, never
  computed with, so it is held as an integer; flags and status codes are 32-bit words.
\<close>

definition SOAPY_SDR_TX :: int where "SOAPY_SDR_TX = 0"
definition SOAPY_SDR_RX :: int where "SOAPY_SDR_RX = 1"

definition SOAPY_SDR_END_BURST :: cint where "SOAPY_SDR_END_BURST = 2"
definition SOAPY_SDR_HAS_TIME :: cint where "SOAPY_SDR_HAS_TIME = 4"
definition SOAPY_SDR_ONE_PACKET :: cint where "SOAPY_SDR_ONE_PACKET = 16"

definition SOAPY_SDR_TIMEOUT :: cint where "SOAPY_SDR_TIMEOUT = - 1"
definition SOAPY_SDR_STREAM_ERROR :: cint where "SOAPY_SDR_STREAM_ERROR = - 2"
definition SOAPY_SDR_CORRUPTION :: cint where "SOAPY_SDR_CORRUPTION = - 3"
definition SOAPY_SDR_TIME_ERROR :: cint where "SOAPY_SDR_TIME_ERROR = - 6"

definition SOAPY_SDR_CF32 :: string where "SOAPY_SDR_CF32 = ''CF32''"
definition SOAPY_SDR_CS16 :: string where "SOAPY_SDR_CS16 = ''CS16''"
definition SOAPY_SDR_CS12 :: string where "SOAPY_SDR_CS12 = ''CS12''"

text \<open>Integer division of C++: the quotient is truncated towards zero.\<close>

definition cdiv :: "int \<Rightarrow> int \<Rightarrow> int" where
  "cdiv a b = sgn a * sgn b * (\<bar>a\<bar> div \<bar>b\<bar>)"

section \<open>Data model\<close>

text \<open>\<^verbatim>\<open>struct IConnectionStream\<close> (lines 26-39).\<close>

record IConnectionStream =
  streamID :: "size_t list"
  direction :: int
  elemSize :: size_t
  elemMTU :: size_t
  enabled :: bool
  hasCmd :: bool
  flags :: cint
  timeNs :: longlong
  numElems :: size_t

text \<open>
  \<^verbatim>\<open>lime::StreamMetadata\<close> and \<^verbatim>\<open>lime::StreamConfig\<close> of IConnection.h, with the fields
  Streaming.cpp reads and writes.
\<close>

record StreamMetadata =
  timestamp :: uint64_t
  hasTimestamp :: bool
  endOfBurst :: bool
  lateTimestamp :: bool
  packetDropped :: bool

datatype StreamDataFormat =
  STREAM_COMPLEX_FLOAT32 | STREAM_12_BIT_IN_16 | STREAM_12_BIT_COMPRESSED

record StreamConfig =
  isTx :: bool
  channelID :: size_t
  performanceLatency :: real
  bufferLength :: size_t
  format :: StreamDataFormat

section \<open>The collaborators: transport connection and RF chip\<close>

text \<open>
  The connection (\<^verbatim>\<open>_conn\<close>) and the RF chips are outside Streaming.cpp. They are
  taken as a parameter: a record that holds, for every kind of call, the list of answers the
  collaborator is going to give, in order, and the log of the calls made so far. A call takes
  the next answer and appends itself to the log; when the answers have run out the model has
  no result (\<open>None\<close>). Quantifying over the record quantifies over every behaviour of
  the collaborators. Timeouts are passed on in milliseconds as the source computes them; how
  long a call really blocks is not modelled.
\<close>

datatype call =
    SetupStream StreamConfig
  | GetStreamSize size_t
  | CloseStream size_t
  | ControlStream size_t bool
  | ReadStream size_t size_t int
  | WriteStream size_t size_t int StreamMetadata
  | ReadStreamStatus size_t int
  | CalibrateRx size_t real
  | CalibrateTx size_t real
  | Modify_SPI_Reg_bits_DC_BYP_RXTSP size_t

record 'a IConnection =
  hwRate :: real
  streamSize :: "size_t \<Rightarrow> size_t"
  setupResps :: "(cint \<times> size_t) list"
  controlResps :: "cint list"
  readResps :: "(cint \<times> StreamMetadata \<times> 'a list) list"
  writeResps :: "cint list"
  statusResps :: "(cint \<times> StreamMetadata \<times> bool) list"
  calls :: "call list"

text \<open>
  Functions of SoapySDR and of the C++ library that the driver calls: their code is not
  part of the repository, so they are parameters too. \<open>stoul\<close> and \<open>stof\<close> throw on
  text that is no number.
\<close>

datatype exn = runtime_error string | out_of_range | invalid_argument

record soapy =
  formatToSize :: "string \<Rightarrow> size_t"
  timeNsToTicks :: "longlong \<Rightarrow> real \<Rightarrow> longlong"
  ticksToTimeNs :: "longlong \<Rightarrow> real \<Rightarrow> longlong"
  stoul :: "string \<Rightarrow> exn + size_t"
  stof :: "string \<Rightarrow> exn + real"

section \<open>writeStream\<close>

definition conn_WriteStream ::
  "'a IConnection \<Rightarrow> size_t \<Rightarrow> size_t \<Rightarrow> int \<Rightarrow> StreamMetadata \<Rightarrow> (cint \<times> 'a IConnection) option" where
  "conn_WriteStream c sid len timeoutMs md =
     (case writeResps c of
        [] \<Rightarrow> None
      | r # rs \<Rightarrow> Some (r, c\<lparr>writeResps := rs, calls := calls c @ [WriteStream sid len timeoutMs md]\<rparr>))"

text \<open>The loop of lines 510-518 over the channels after the first.\<close>

fun writeRest ::
  "'a IConnection \<Rightarrow> size_t list \<Rightarrow> cint \<Rightarrow> StreamMetadata \<Rightarrow> (cint \<times> 'a IConnection) option" where
  "writeRest c [] status md = Some (status, c)"
| "writeRest c (sid # ids) status md =
     (case conn_WriteStream c sid (scast status) 1000 md of
        None \<Rightarrow> None
      | Some (status_i, c') \<Rightarrow>
          if status_i \<noteq> status then Some (SOAPY_SDR_CORRUPTION, c')
          else writeRest c' ids status md)"

text \<open>
  \<^verbatim>\<open>SoapyLMS7::writeStream\<close> (lines 485-522). \<open>md0\<close> is a default-constructed
  StreamMetadata. \<^verbatim>\<open>streamID[0]\<close> of an empty vector is undefined in C++: no result.
  The sample buffers are only handed through to the transport and are left out.
\<close>

definition writeStream ::
  "soapy \<Rightarrow> StreamMetadata \<Rightarrow> 'a IConnection \<Rightarrow> IConnectionStream \<Rightarrow> size_t \<Rightarrow> cint \<Rightarrow> longlong \<Rightarrow> int
     \<Rightarrow> (cint \<times> 'a IConnection) option" where
  "writeStream L md0 c stream n fl tNs timeoutUs =
     (case streamID stream of
        [] \<Rightarrow> None
      | sid0 # rest \<Rightarrow>
          (let metadata = md0\<lparr>timestamp := timeNsToTicks L tNs (hwRate c),
                              hasTimestamp := (fl AND SOAPY_SDR_HAS_TIME \<noteq> 0),
                              endOfBurst := (fl AND SOAPY_SDR_END_BURST \<noteq> 0)\<rparr>
           in case conn_WriteStream c sid0 n (cdiv timeoutUs 1000) metadata of
                None \<Rightarrow> None
              | Some (status, c') \<Rightarrow>
                  if status = 0 then Some (SOAPY_SDR_TIMEOUT, c')
                  else if sint status < 0 then Some (SOAPY_SDR_STREAM_ERROR, c')
                  else writeRest c' rest status metadata))"

section \<open>readStreamStatus\<close>






section \<open>The driver object\<close>

text \<open>
  The members of \<^verbatim>\<open>SoapyLMS7\<close> that Streaming.cpp uses. \<^verbatim>\<open>_channelsToCal\<close> is a
  \<^verbatim>\<open>std::set\<close> of (direction, channel) pairs: it is held as the list of its members in
  the set's iteration order, so \<^verbatim>\<open>emplace\<close> is \<open>insort_insert\<close> and \<^verbatim>\<open>begin()\<close> is
  the head. \<^verbatim>\<open>_actualBw.at(dir).at(ch)\<close> throws when a key is missing, and so does
  \<^verbatim>\<open>getRFIC(ch)\<close> when there is no chip for the channel; \<open>rficPresent\<close> says whether
  it returns.
\<close>

record 'a SoapyLMS7 =
  conn :: "'a IConnection"
  channelsToCal :: "(int \<times> size_t) list"
  deviceArgs :: "string \<rightharpoonup> string"
  actualBw :: "int \<Rightarrow> size_t \<Rightarrow> real option"
  rficPresent :: "size_t \<Rightarrow> bool"

section \<open>setupStream, closeStream, getStreamMTU\<close>

definition conn_SetupStream ::
  "'a IConnection \<Rightarrow> StreamConfig \<Rightarrow> ((cint \<times> size_t) \<times> 'a IConnection) option" where
  "conn_SetupStream c config =
     (case setupResps c of
        [] \<Rightarrow> None
      | r # rs \<Rightarrow> Some (r, c\<lparr>setupResps := rs, calls := calls c @ [SetupStream config]\<rparr>))"

definition conn_GetStreamSize :: "'a IConnection \<Rightarrow> size_t \<Rightarrow> size_t \<times> 'a IConnection" where
  "conn_GetStreamSize c sid = (streamSize c sid, c\<lparr>calls := calls c @ [GetStreamSize sid]\<rparr>)"

text \<open>Lines 120-123: the stream format, or the exception for an unsupported one.\<close>

definition setFormat :: "string \<Rightarrow> StreamConfig \<Rightarrow> exn + StreamConfig" where
  "setFormat fmt config =
     (if fmt = SOAPY_SDR_CF32 then Inr (config\<lparr>format := STREAM_COMPLEX_FLOAT32\<rparr>)
      else if fmt = SOAPY_SDR_CS16 then Inr (config\<lparr>format := STREAM_12_BIT_IN_16\<rparr>)
      else if fmt = SOAPY_SDR_CS12 then Inr (config\<lparr>format := STREAM_12_BIT_COMPRESSED\<rparr>)
      else Inl (runtime_error (''SoapyLMS7::setupStream(format='' @ fmt @ '') unsupported format'')))"

text \<open>Lines 125-136: the buffer length of the device arguments, then the caller's.\<close>

definition setBufferLength ::
  "soapy \<Rightarrow> (string \<rightharpoonup> string) \<Rightarrow> (string \<rightharpoonup> string) \<Rightarrow> StreamConfig \<Rightarrow> exn + StreamConfig" where
  "setBufferLength L dargs args config =
     (case (case dargs (if isTx config then ''txBufferLength'' else ''rxBufferLength'') of
              None \<Rightarrow> Inr config
            | Some v \<Rightarrow> (case stoul L v of
                          Inl e \<Rightarrow> Inl e
                        | Inr n \<Rightarrow> Inr (config\<lparr>bufferLength := n\<rparr>))) of
        Inl e \<Rightarrow> Inl e
      | Inr config1 \<Rightarrow>
          (case args ''bufferLength'' of
             None \<Rightarrow> Inr config1
           | Some v \<Rightarrow> (case stoul L v of
                         Inl e \<Rightarrow> Inl e
                       | Inr n \<Rightarrow> Inr (config1\<lparr>bufferLength := n\<rparr>))))"

text \<open>
  Lines 138-149: the caller's latency, clamped to the interval from 0 to 1, and then the
  assignment of line 149.
\<close>

definition setLatency :: "soapy \<Rightarrow> (string \<rightharpoonup> string) \<Rightarrow> StreamConfig \<Rightarrow> exn + StreamConfig" where
  "setLatency L args config =
     (case (case args ''latency'' of
              None \<Rightarrow> Inr config
            | Some v \<Rightarrow> (case stof L v of
                          Inl e \<Rightarrow> Inl e
                        | Inr x \<Rightarrow>
                            Inr (config\<lparr>performanceLatency :=
                                   (if x < 0 then 0 else if x > 1 then 1 else x)\<rparr>))) of
        Inl e \<Rightarrow> Inl e
      | Inr config1 \<Rightarrow> Inr (config1\<lparr>performanceLatency := 0\<rparr>))"

definition channelConfig ::
  "soapy \<Rightarrow> (string \<rightharpoonup> string) \<Rightarrow> string \<Rightarrow> (string \<rightharpoonup> string) \<Rightarrow> StreamConfig \<Rightarrow> size_t
     \<Rightarrow> exn + StreamConfig" where
  "channelConfig L dargs fmt args config ch =
     (case setFormat fmt (config\<lparr>channelID := ch\<rparr>) of
        Inl e \<Rightarrow> Inl e
      | Inr config1 \<Rightarrow>
          (case setBufferLength L dargs args config1 of
             Inl e \<Rightarrow> Inl e
           | Inr config2 \<Rightarrow> setLatency L args config2))"

text \<open>
  The loop of lines 117-160. The text of the transport's last error, which the source puts
  into the exception, is not modelled.
\<close>

fun setupChannels ::
  "soapy \<Rightarrow> (string \<rightharpoonup> string) \<Rightarrow> string \<Rightarrow> (string \<rightharpoonup> string) \<Rightarrow> 'a IConnection \<Rightarrow> StreamConfig
     \<Rightarrow> IConnectionStream \<Rightarrow> size_t list \<Rightarrow> ((exn + IConnectionStream) \<times> 'a IConnection) option" where
  "setupChannels L dargs fmt args c config stream [] = Some (Inr stream, c)"
| "setupChannels L dargs fmt args c config stream (ch # chs) =
     (case channelConfig L dargs fmt args config ch of
        Inl e \<Rightarrow> Some (Inl e, c)
      | Inr config1 \<Rightarrow>
          (case conn_SetupStream c config1 of
             None \<Rightarrow> None
           | Some ((status, sid), c1) \<Rightarrow>
               if status \<noteq> 0
               then Some (Inl (runtime_error ''SoapyLMS7::setupStream() failed''), c1)
               else
                 (case conn_GetStreamSize c1 sid of
                    (sz, c2) \<Rightarrow>
                      setupChannels L dargs fmt args c2 config1
                        (stream\<lparr>streamID := streamID stream @ [sid], elemMTU := sz,
                                enabled := False\<rparr>) chs)))"

text \<open>
  \<^verbatim>\<open>SoapyLMS7::setupStream\<close> (lines 96-169). \<open>raw\<close> is the object \<^verbatim>\<open>new\<close> returns, its
  plain members not yet assigned, and \<open>config0\<close> a default-constructed StreamConfig. An
  exception leaves the driver with the calls made so far and no handle.
\<close>

definition setupStream ::
  "soapy \<Rightarrow> StreamConfig \<Rightarrow> IConnectionStream \<Rightarrow> 'a SoapyLMS7 \<Rightarrow> int \<Rightarrow> string \<Rightarrow> size_t list
     \<Rightarrow> (string \<rightharpoonup> string) \<Rightarrow> ((exn + IConnectionStream) \<times> 'a SoapyLMS7) option" where
  "setupStream L config0 raw drv dir fmt channels args =
     (let stream = raw\<lparr>streamID := [], direction := dir, elemSize := formatToSize L fmt,
                       hasCmd := False\<rparr>;
          config = config0\<lparr>isTx := (dir = SOAPY_SDR_TX), performanceLatency := 0.5\<rparr>;
          channelIDs = (if channels = [] then [0] else channels)
      in case setupChannels L (deviceArgs drv) fmt args (conn drv) config stream channelIDs of
           None \<Rightarrow> None
         | Some (Inl e, c') \<Rightarrow> Some (Inl e, drv\<lparr>conn := c'\<rparr>)
         | Some (Inr stream', c') \<Rightarrow>
             Some (Inr stream',
                   drv\<lparr>conn := c',
                       channelsToCal :=
                         fold (\<lambda>ch s. insort_insert (dir, ch) s) channelIDs (channelsToCal drv)\<rparr>))"

definition getStreamMTU :: "IConnectionStream \<Rightarrow> size_t" where
  "getStreamMTU icstream = elemMTU icstream"

definition conn_ControlStream ::
  "'a IConnection \<Rightarrow> size_t \<Rightarrow> bool \<Rightarrow> (cint \<times> 'a IConnection) option" where
  "conn_ControlStream c sid enable =
     (case controlResps c of
        [] \<Rightarrow> None
      | r # rs \<Rightarrow> Some (r, c\<lparr>controlResps := rs, calls := calls c @ [ControlStream sid enable]\<rparr>))"

text \<open>
  The loops over \<^verbatim>\<open>streamID\<close> that call \<^verbatim>\<open>ControlStream\<close> and return at the first
  status that is not 0 (lines 282-286 and 310-314): the result says whether all succeeded.
\<close>

fun controlAll :: "'a IConnection \<Rightarrow> bool \<Rightarrow> size_t list \<Rightarrow> (bool \<times> 'a IConnection) option" where
  "controlAll c enable [] = Some (True, c)"
| "controlAll c enable (sid # ids) =
     (case conn_ControlStream c sid enable of
        None \<Rightarrow> None
      | Some (status, c') \<Rightarrow>
          if status \<noteq> 0 then Some (False, c') else controlAll c' enable ids)"

text \<open>The loop of closeStream (lines 180-181), which ignores the status.\<close>

fun controlEach :: "'a IConnection \<Rightarrow> bool \<Rightarrow> size_t list \<Rightarrow> 'a IConnection option" where
  "controlEach c enable [] = Some c"
| "controlEach c enable (sid # ids) =
     (case conn_ControlStream c sid enable of
        None \<Rightarrow> None
      | Some (status, c') \<Rightarrow> controlEach c' enable ids)"

definition closeStream :: "'a SoapyLMS7 \<Rightarrow> IConnectionStream \<Rightarrow> 'a SoapyLMS7 option" where
  "closeStream drv icstream =
     (case (if enabled icstream then controlEach (conn drv) False (streamID icstream)
            else Some (conn drv)) of
        None \<Rightarrow> None
      | Some c' \<Rightarrow>
          Some (drv\<lparr>conn := c'\<lparr>calls := calls c' @ map CloseStream (streamID icstream)\<rparr>\<rparr>))"

section \<open>activateStream and deactivateStream\<close>

text \<open>
  One calibration call, \<^verbatim>\<open>getRFIC(ch)->CalibrateRx(_actualBw.at(dir).at(ch))\<close> or its TX
  twin: an exception of the two lookups, or the call appended to the log.
\<close>

definition calibrate ::
  "(int \<Rightarrow> size_t \<Rightarrow> real option) \<Rightarrow> (size_t \<Rightarrow> bool) \<Rightarrow> (size_t \<Rightarrow> real \<Rightarrow> call) \<Rightarrow> int \<Rightarrow> size_t
     \<Rightarrow> call list \<Rightarrow> exn + call list" where
  "calibrate bw rfic routine dir ch tr =
     (if rfic ch
      then (case bw dir ch of
              None \<Rightarrow> Inl out_of_range
            | Some b \<Rightarrow> Inr (tr @ [routine ch b]))
      else Inl out_of_range)"

text \<open>
  The \<^verbatim>\<open>while\<close> of lines 230-238 over \<^verbatim>\<open>_channelsToCal\<close>: the result is the exception
  that ended it, if any, the members still in the set, and the log.
\<close>

fun calibrateAll ::
  "(int \<Rightarrow> size_t \<Rightarrow> real option) \<Rightarrow> (size_t \<Rightarrow> bool) \<Rightarrow> (int \<times> size_t) list \<Rightarrow> call list
     \<Rightarrow> exn option \<times> (int \<times> size_t) list \<times> call list" where
  "calibrateAll bw rfic [] tr = (None, [], tr)"
| "calibrateAll bw rfic ((dir, ch) # rest) tr =
     (case (if dir = SOAPY_SDR_RX then calibrate bw rfic CalibrateRx dir ch tr else Inr tr) of
        Inl e \<Rightarrow> (Some e, (dir, ch) # rest, tr)
      | Inr tr1 \<Rightarrow>
          (case (if dir = SOAPY_SDR_TX then calibrate bw rfic CalibrateTx dir ch tr1
                 else Inr tr1) of
             Inl e \<Rightarrow> (Some e, (dir, ch) # rest, tr1)
           | Inr tr2 \<Rightarrow> calibrateAll bw rfic rest tr2))"

text \<open>
  \<^verbatim>\<open>SoapyLMS7::activateStream\<close> (lines 195-291). The result is the exception or the
  returned status, the stream object and the driver. The sleep of line 276 only passes time.
\<close>

definition activateStream ::
  "'a SoapyLMS7 \<Rightarrow> IConnectionStream \<Rightarrow> cint \<Rightarrow> longlong \<Rightarrow> size_t
     \<Rightarrow> ((exn + cint) \<times> IConnectionStream \<times> 'a SoapyLMS7) option" where
  "activateStream drv icstream fl tNs n =
     (if hwRate (conn drv) = 0
      then Some (Inl (runtime_error
             ''SoapyLMS7::activateStream() - the sample rate has not been configured!''),
             icstream, drv)
      else
        (case calibrateAll (actualBw drv) (rficPresent drv) (channelsToCal drv)
                (calls (conn drv)) of
           (Some e, remaining, tr) \<Rightarrow>
             Some (Inl e, icstream,
                   drv\<lparr>channelsToCal := remaining, conn := (conn drv)\<lparr>calls := tr\<rparr>\<rparr>)
         | (None, remaining, tr) \<Rightarrow>
             (let drv1 = drv\<lparr>channelsToCal := remaining, conn := (conn drv)\<lparr>calls := tr\<rparr>\<rparr>
              in if \<not> rficPresent drv1 0 then Some (Inl out_of_range, icstream, drv1)
                 else
                   (let c2 = (conn drv1)\<lparr>calls := calls (conn drv1)
                                @ [Modify_SPI_Reg_bits_DC_BYP_RXTSP 0]\<rparr>;
                        icstream1 = icstream\<lparr>flags := fl, timeNs := tNs, numElems := n,
                                             hasCmd := True\<rparr>
                    in if \<not> enabled icstream1
                       then (case controlAll c2 True (streamID icstream1) of
                               None \<Rightarrow> None
                             | Some (False, c3) \<Rightarrow>
                                 Some (Inr SOAPY_SDR_STREAM_ERROR, icstream1, drv1\<lparr>conn := c3\<rparr>)
                             | Some (True, c3) \<Rightarrow>
                                 Some (Inr 0, icstream1\<lparr>enabled := True\<rparr>, drv1\<lparr>conn := c3\<rparr>))
                       else Some (Inr 0, icstream1, drv1\<lparr>conn := c2\<rparr>)))))"

text \<open>
  \<^verbatim>\<open>SoapyLMS7::deactivateStream\<close> (lines 293-319). The metadata it fills in is never
  used.
\<close>

definition deactivateStream ::
  "'a SoapyLMS7 \<Rightarrow> IConnectionStream \<Rightarrow> cint \<Rightarrow> longlong
     \<Rightarrow> (cint \<times> IConnectionStream \<times> 'a SoapyLMS7) option" where
  "deactivateStream drv icstream fl tNs =
     (let icstream1 = icstream\<lparr>hasCmd := False\<rparr>
      in if enabled icstream1
         then (case controlAll (conn drv) False (streamID icstream1) of
                 None \<Rightarrow> None
               | Some (False, c') \<Rightarrow> Some (SOAPY_SDR_STREAM_ERROR, icstream1, drv\<lparr>conn := c'\<rparr>)
               | Some (True, c') \<Rightarrow> Some (0, icstream1\<lparr>enabled := False\<rparr>, drv\<lparr>conn := c'\<rparr>))
         else Some (0, icstream1, drv))"

section \<open>The multi-channel aligned read\<close>

text \<open>
  The transport writes the elements it read into the caller's buffer at the address it was
  given: \<open>write_at buf off data\<close> is the buffer with \<open>data\<close> stored from byte offset
  \<open>off\<close>. An answer to \<^verbatim>\<open>ReadStream\<close> is the status, the metadata as the transport
  leaves it and the bytes it stored.
\<close>

definition write_at :: "'a list \<Rightarrow> nat \<Rightarrow> 'a list \<Rightarrow> 'a list" where
  "write_at buf off data = take off buf @ data @ drop (off + length data) buf"

text \<open>
  The variables of \<^verbatim>\<open>_readStreamAligned\<close> (lines 334-398): the loop index \<^verbatim>\<open>i\<close>
  (\<open>chan\<close>), \<^verbatim>\<open>numWritten\<close>, the caller's buffers \<^verbatim>\<open>buffs\<close> by channel index,
  \<^verbatim>\<open>requestTime\<close>, the parameter \<^verbatim>\<open>numElems\<close> (\<open>wantElems\<close>), which the loop
  reassigns, and the metadata \<^verbatim>\<open>md\<close> (\<open>meta\<close>).
\<close>

record 'a align =
  chan :: nat
  numWritten :: "size_t list"
  buffs :: "nat \<Rightarrow> 'a list"
  requestTime :: uint64_t
  wantElems :: size_t
  meta :: StreamMetadata

text \<open>The code after the label \<^verbatim>\<open>updateHead\<close> (lines 391-393).\<close>

definition updateHead :: "'a align \<Rightarrow> size_t \<Rightarrow> 'a align" where
  "updateHead st elemsRead = st\<lparr>requestTime := timestamp (meta st), wantElems := elemsRead\<rparr>"

text \<open>fastForward applied to channel \<open>j\<close> of the loop state.\<close>

definition ffChannel :: "size_t \<Rightarrow> uint64_t \<Rightarrow> uint64_t \<Rightarrow> nat \<Rightarrow> 'a align \<Rightarrow> 'a align" where
  "ffChannel esz oldHead newHead j st =
     (case fastForward (buffs st j) (numWritten st ! j) esz oldHead newHead of
        (b, n) \<Rightarrow> st\<lparr>buffs := (buffs st)(j := b), numWritten := (numWritten st)[j := n]\<rparr>)"

text \<open>
  Lines 381-389, taken when the new segment starts after the expected time: all prior
  channels and the current one are fast-forwarded and the loop starts over at channel 0.
\<close>

definition restart :: "size_t \<Rightarrow> size_t \<Rightarrow> 'a align \<Rightarrow> 'a align" where
  "restart esz prevN st =
     (let i = chan st;
          st1 = fold (ffChannel esz (requestTime st) (timestamp (meta st))) [0..<i] st;
          st2 = ffChannel esz (timestamp (meta st) - prevN) (timestamp (meta st)) i st1
      in st2\<lparr>chan := 0\<rparr>)"

text \<open>
  The body of the loop (lines 348-393) for one answer of the transport. The first component
  of the result is the status of a \<^verbatim>\<open>return\<close> inside the body, if one is taken.
\<close>

definition alignBody ::
  "size_t \<Rightarrow> 'a align \<Rightarrow> cint \<times> StreamMetadata \<times> 'a list \<Rightarrow> cint option \<times> 'a align" where
  "alignBody esz st r =
     (case r of (status, md, data) \<Rightarrow>
        (let i = chan st;
             N = numWritten st ! i;
             expectedTime = requestTime st + N;
             st1 = st\<lparr>buffs := (buffs st)(i := write_at (buffs st i) (unat (esz * N)) data),
                      meta := md\<rparr>
         in if status = 0 then (Some SOAPY_SDR_TIMEOUT, st1)
            else if sint status < 0 then (Some SOAPY_SDR_STREAM_ERROR, st1)
            else
              (let elemsRead = scast status;
                   prevN = N;
                   st2 = st1\<lparr>numWritten := (numWritten st1)[i := N + elemsRead]\<rparr>
               in if requestTime st = 0 then (None, updateHead st2 elemsRead)
                  else if expectedTime = timestamp md then (None, st2)
                  else if timestamp md < expectedTime
                  then (if prevN \<noteq> 0 then (Some SOAPY_SDR_CORRUPTION, st2)
                        else
                          (let st3 = ffChannel esz (timestamp md) (requestTime st) i st2;
                               N3 = numWritten st3 ! i
                           in (None, if i = 0 \<and> N3 \<noteq> 0 then st3\<lparr>wantElems := N3\<rparr> else st3)))
                  else (None, updateHead
                                (if timestamp md > expectedTime then restart esz prevN st2
                                 else st2) elemsRead))))"

text \<open>The increment of the \<^verbatim>\<open>for\<close> statement (line 346).\<close>

definition advance :: "'a align \<Rightarrow> 'a align" where
  "advance st = st\<lparr>chan := chan st + (if numWritten st ! chan st = wantElems st then 1 else 0)\<rparr>"

text \<open>
  The loop of lines 346-394 and the two statements after it. Every iteration takes one
  answer of the transport.
\<close>

function alignLoop ::
  "size_t list \<Rightarrow> size_t \<Rightarrow> int \<Rightarrow> 'a IConnection \<Rightarrow> 'a align
     \<Rightarrow> (cint \<times> 'a align \<times> 'a IConnection) option" where
  "alignLoop ids esz timeoutMs c st =
     (if \<not> chan st < length ids
      then Some (ucast (wantElems st),
                 st\<lparr>meta := (meta st)\<lparr>timestamp := requestTime st\<rparr>\<rparr>, c)
      else
        (case readResps c of
           [] \<Rightarrow> None
         | r # rs \<Rightarrow>
             (let c' = c\<lparr>readResps := rs,
                         calls := calls c @ [ReadStream (ids ! chan st)
                                    (wantElems st - numWritten st ! chan st) timeoutMs]\<rparr>
              in case alignBody esz st r of
                   (Some e, st') \<Rightarrow> Some (e, st', c')
                 | (None, st') \<Rightarrow> alignLoop ids esz timeoutMs c' (advance st'))))"
  by pat_completeness auto
termination
  by (relation "measure (\<lambda>(ids, esz, timeoutMs, c, st). length (readResps c))") auto

text \<open>The equation of the loop is unfolded by hand.\<close>

declare alignLoop.simps [simp del]

text \<open>
  \<^verbatim>\<open>SoapyLMS7::_readStreamAligned\<close>. The result is the returned status, the metadata and
  the buffers as the call leaves them, and the connection.
\<close>

definition readStreamAligned ::
  "'a IConnection \<Rightarrow> IConnectionStream \<Rightarrow> (nat \<Rightarrow> 'a list) \<Rightarrow> size_t \<Rightarrow> uint64_t \<Rightarrow> StreamMetadata \<Rightarrow> int
     \<Rightarrow> (cint \<times> StreamMetadata \<times> (nat \<Rightarrow> 'a list) \<times> 'a IConnection) option" where
  "readStreamAligned c stream bufs n reqTime md timeoutMs =
     (case alignLoop (streamID stream) (elemSize stream) timeoutMs c
             \<lparr>chan = 0, numWritten = replicate (length (streamID stream)) 0, buffs = bufs,
              requestTime = reqTime, wantElems = n, meta = md\<rparr> of
        None \<Rightarrow> None
      | Some (status, st, c') \<Rightarrow> Some (status, meta st, buffs st, c'))"

section \<open>readStream\<close>

text \<open>
  Lines 459-473: the accounting of a finite burst. The result is the status, the stream
  object and the metadata.
\<close>

definition burstAccount ::
  "cint \<Rightarrow> IConnectionStream \<Rightarrow> StreamMetadata \<Rightarrow> cint \<times> IConnectionStream \<times> StreamMetadata" where
  "burstAccount status icstream metadata =
     (if numElems icstream \<noteq> 0
      then (let status1 = (ucast (min (scast status) (numElems icstream)) :: cint);
                icstream1 = icstream\<lparr>numElems := numElems icstream - scast status1\<rparr>
            in if numElems icstream1 = 0
               then (status1, icstream1\<lparr>hasCmd := False\<rparr>, metadata\<lparr>endOfBurst := True\<rparr>)
               else (status1, icstream1, metadata))
      else (status, icstream, metadata))"

text \<open>
  \<^verbatim>\<open>SoapyLMS7::readStream\<close> (lines 403-483). \<open>fl\<close> and \<open>tNs\<close> are the caller's
  \<^verbatim>\<open>flags\<close> and \<^verbatim>\<open>timeNs\<close>, which the call overwrites only on the way to its last
  \<^verbatim>\<open>return\<close>. The result is the returned status, the stream object, the two outputs, the
  buffers and the connection. The wait without a command only passes time.
\<close>

definition readStream ::
  "soapy \<Rightarrow> StreamMetadata \<Rightarrow> 'a IConnection \<Rightarrow> IConnectionStream \<Rightarrow> (nat \<Rightarrow> 'a list) \<Rightarrow> size_t \<Rightarrow> cint
     \<Rightarrow> longlong \<Rightarrow> int
     \<Rightarrow> (cint \<times> IConnectionStream \<times> cint \<times> longlong \<times> (nat \<Rightarrow> 'a list) \<times> 'a IConnection) option" where
  "readStream L md0 c icstream bufs n fl tNs timeoutUs =
     (if \<not> hasCmd icstream then Some (SOAPY_SDR_TIMEOUT, icstream, fl, tNs, bufs, c)
      else
        (let n1 = (if fl AND SOAPY_SDR_ONE_PACKET \<noteq> 0 then min n (elemMTU icstream) else n);
             cmdTicks = (if flags icstream AND SOAPY_SDR_HAS_TIME \<noteq> 0
                         then timeNsToTicks L (timeNs icstream) (hwRate c) else 0)
         in case readStreamAligned c icstream bufs n1 cmdTicks md0 (cdiv timeoutUs 1000) of
              None \<Rightarrow> None
            | Some (status, metadata, bufs', c') \<Rightarrow>
                if sint status < 0 then Some (status, icstream, fl, tNs, bufs', c')
                else if flags icstream AND SOAPY_SDR_HAS_TIME \<noteq> 0 \<and> hasTimestamp metadata
                        \<and> cmdTicks < timestamp metadata
                then Some (SOAPY_SDR_TIME_ERROR, icstream\<lparr>hasCmd := False\<rparr>, fl, tNs, bufs', c')
                else if flags icstream AND SOAPY_SDR_HAS_TIME \<noteq> 0 \<and> hasTimestamp metadata
                        \<and> cmdTicks \<noteq> timestamp metadata
                then Some (SOAPY_SDR_STREAM_ERROR, icstream, fl, tNs, bufs', c')
                else
                  (let icstream1 =
                         (if flags icstream AND SOAPY_SDR_HAS_TIME \<noteq> 0 \<and> hasTimestamp metadata
                          then icstream\<lparr>flags := flags icstream AND NOT SOAPY_SDR_HAS_TIME\<rparr>
                          else icstream)
                   in case burstAccount status icstream1 metadata of
                        (status2, icstream2, metadata2) \<Rightarrow>
                          Some (if 0 \<le> sint status2 then status2 else SOAPY_SDR_STREAM_ERROR,
                                icstream2,
                                (if endOfBurst metadata2 then SOAPY_SDR_END_BURST else 0)
                                  OR (if hasTimestamp metadata2 then SOAPY_SDR_HAS_TIME else 0),
                                ticksToTimeNs L (timestamp metadata2) (hwRate c'),
                                bufs', c'))))"

section \<open>Sequences of calls\<close>




text \<open>
  The calibrations in a log of calls, as (direction, channel) pairs, and the members of the
  pending calibration set that have a calibration routine (RX or TX).
\<close>

fun calibrations :: "call list \<Rightarrow> (int \<times> size_t) list" where
  "calibrations [] = []"
| "calibrations (CalibrateRx ch bw # cs) = (SOAPY_SDR_RX, ch) # calibrations cs"
| "calibrations (CalibrateTx ch bw # cs) = (SOAPY_SDR_TX, ch) # calibrations cs"
| "calibrations (other # cs) = calibrations cs"

definition hasCalibration :: "int \<times> size_t \<Rightarrow> bool" where
  "hasCalibration p = (fst p = SOAPY_SDR_RX \<or> fst p = SOAPY_SDR_TX)"

text \<open>
  The calibration call that the loop of lines 230-238 makes for such a member, with the
  bandwidth that \<^verbatim>\<open>_actualBw\<close> holds for it.
\<close>

definition calibrationCall :: "(int \<Rightarrow> size_t \<Rightarrow> real option) \<Rightarrow> int \<times> size_t \<Rightarrow> call" where
  "calibrationCall bw p =
     (if fst p = SOAPY_SDR_RX then CalibrateRx (snd p) (the (bw (fst p) (snd p)))
      else CalibrateTx (snd p) (the (bw (fst p) (snd p))))"

text \<open>
  A sequence of setupStream calls and a sequence of activateStream calls on one driver; an
  exception of one call does not stop the calls after it.
\<close>

fun setupMany ::
  "soapy \<Rightarrow> StreamConfig \<Rightarrow> 'a SoapyLMS7
     \<Rightarrow> (IConnectionStream \<times> int \<times> string \<times> size_t list \<times> (string \<rightharpoonup> string)) list
     \<Rightarrow> 'a SoapyLMS7 option" where
  "setupMany L config0 drv [] = Some drv"
| "setupMany L config0 drv ((raw, dir, fmt, channels, args) # later) =
     (case setupStream L config0 raw drv dir fmt channels args of
        None \<Rightarrow> None
      | Some (res, drv') \<Rightarrow> setupMany L config0 drv' later)"

fun activateMany ::
  "'a SoapyLMS7 \<Rightarrow> (IConnectionStream \<times> cint \<times> longlong \<times> size_t) list \<Rightarrow> 'a SoapyLMS7 option" where
  "activateMany drv [] = Some drv"
| "activateMany drv ((icstream, fl, tNs, n) # later) =
     (case activateStream drv icstream fl tNs n of
        None \<Rightarrow> None
      | Some (res, icstream', drv') \<Rightarrow> activateMany drv' later)"

section \<open>Predicates used to state the properties of readStreamStatus\<close>





section \<open>Concrete collaborators for the worked examples\<close>

text \<open>
  A connection with no answers left, a default-constructed metadata, library functions
  that convert ticks and nanoseconds one to one, stream objects, and the drivers and
  scripts of the examples below. The elements of the sample buffers are natural numbers.
\<close>

definition conn0 :: "nat IConnection" where
  "conn0 = \<lparr>hwRate = 1, streamSize = (\<lambda>_. 0), setupResps = [], controlResps = [], readResps = [],
     writeResps = [], statusResps = [], calls = []\<rparr>"

definition md_default :: StreamMetadata where
  "md_default = \<lparr>timestamp = 0, hasTimestamp = False, endOfBurst = False, lateTimestamp = False, packetDropped = False\<rparr>"

definition lib0 :: soapy where
  "lib0 = \<lparr>formatToSize = (\<lambda>_. 4), timeNsToTicks = (\<lambda>t _. t), ticksToTimeNs = (\<lambda>t _. t),
     stoul = (\<lambda>_. Inl invalid_argument), stof = (\<lambda>_. Inl invalid_argument)\<rparr>"

definition stream2 :: IConnectionStream where
  "stream2 = \<lparr>streamID = [0, 1], direction = 0, elemSize = 4, elemMTU = 1020, enabled = True,
     hasCmd = False, flags = 0, timeNs = 0, numElems = 0\<rparr>"

definition lib1 :: soapy where
  "lib1 = lib0\<lparr>stof := (\<lambda>s. if s = ''0.7'' then Inr (7 / 10) else Inl invalid_argument)\<rparr>"

definition config_default :: StreamConfig where
  "config_default = \<lparr>isTx = False, channelID = 0, performanceLatency = 0.5, bufferLength = 0,
     format = STREAM_12_BIT_IN_16\<rparr>"

definition raw_stream :: IConnectionStream where
  "raw_stream = \<lparr>streamID = [], direction = 0, elemSize = 0, elemMTU = 0, enabled = False,
     hasCmd = False, flags = 0, timeNs = 0, numElems = 0\<rparr>"

definition drv0 :: "nat SoapyLMS7" where
  "drv0 = \<lparr>conn = conn0, channelsToCal = [], deviceArgs = Map.empty,
     actualBw = (\<lambda>dir ch. Some 5000000), rficPresent = (\<lambda>ch. True)\<rparr>"

definition connMTU :: "nat IConnection" where
  "connMTU = conn0\<lparr>setupResps := [(0, 10), (0, 11)],
                   streamSize := (\<lambda>sid. if sid = 10 then 1020 else 1360)\<rparr>"

definition stream_two :: IConnectionStream where
  "stream_two = raw_stream\<lparr>streamID := [10, 11], direction := 1, elemSize := 4, elemMTU := 1360\<rparr>"

definition drv_two :: "nat SoapyLMS7" where
  "drv_two = drv0\<lparr>conn := connMTU\<lparr>setupResps := [],
           calls := [SetupStream (config_default\<lparr>channelID := 0, performanceLatency := 0\<rparr>),
                     GetStreamSize 10,
                     SetupStream (config_default\<lparr>channelID := 1, performanceLatency := 0\<rparr>),
                     GetStreamSize 11]\<rparr>,
         channelsToCal := [(1, 0), (1, 1)]\<rparr>"

definition mdAt :: "uint64_t \<Rightarrow> StreamMetadata" where
  "mdAt t = \<lparr>timestamp = t, hasTimestamp = True, endOfBurst = False, lateTimestamp = False,
     packetDropped = False\<rparr>"

definition stream2rx :: IConnectionStream where
  "stream2rx = \<lparr>streamID = [0, 1], direction = 1, elemSize = 1, elemMTU = 1020, enabled = True,
     hasCmd = True, flags = 0, timeNs = 0, numElems = 0\<rparr>"



definition stream1 :: IConnectionStream where
  "stream1 = raw_stream\<lparr>streamID := [10], direction := SOAPY_SDR_RX, elemSize := 1, elemMTU := 1020\<rparr>"






definition streamTimed :: "longlong \<Rightarrow> IConnectionStream" where
  "streamTimed t = stream1\<lparr>enabled := True, hasCmd := True, flags := SOAPY_SDR_HAS_TIME,
     timeNs := t, numElems := 0\<rparr>"

definition connRead :: "(cint \<times> StreamMetadata \<times> nat list) list \<Rightarrow> nat IConnection" where
  "connRead rs = conn0\<lparr>readResps := rs\<rparr>"



definition drvCal :: "nat SoapyLMS7" where
  "drvCal = drv0\<lparr>conn := conn0\<lparr>setupResps := [(0, 10), (0, 11), (0, 12), (0, 13)],
                                 controlResps := [0, 0, 0, 0]\<rparr>\<rparr>"

definition calSetups ::
  "(IConnectionStream \<times> int \<times> string \<times> size_t list \<times> (string \<rightharpoonup> string)) list" where
  "calSetups = [(raw_stream, SOAPY_SDR_RX, ''CS16'', [0, 1], Map.empty),
                (raw_stream, SOAPY_SDR_RX, ''CS16'', [0], Map.empty),
                (raw_stream, SOAPY_SDR_TX, ''CS16'', [0], Map.empty)]"

definition calActs :: "(IConnectionStream \<times> cint \<times> longlong \<times> size_t) list" where
  "calActs = [(stream_two, 0, 0, 0), (stream_two, 0, 0, 0)]"

definition setupCalls :: "call list" where
  "setupCalls = [SetupStream (config_default\<lparr>channelID := 0, performanceLatency := 0\<rparr>),
                 GetStreamSize 10,
                 SetupStream (config_default\<lparr>channelID := 1, performanceLatency := 0\<rparr>),
                 GetStreamSize 11,
                 SetupStream (config_default\<lparr>channelID := 0, performanceLatency := 0\<rparr>),
                 GetStreamSize 12,
                 SetupStream (config_default\<lparr>isTx := True, channelID := 0,
                                            performanceLatency := 0\<rparr>),
                 GetStreamSize 13]"

definition drvCalS :: "nat SoapyLMS7" where
  "drvCalS = drv0\<lparr>conn := conn0\<lparr>controlResps := [0, 0, 0, 0], calls := setupCalls\<rparr>,
                  channelsToCal := [(0, 0), (1, 0), (1, 1)]\<rparr>"

definition calibrationCalls :: "call list" where
  "calibrationCalls = [CalibrateTx 0 5000000, CalibrateRx 0 5000000, CalibrateRx 1 5000000]"

definition drvCalE :: "nat SoapyLMS7" where
  "drvCalE = drv0\<lparr>conn := conn0\<lparr>calls := setupCalls
       @ calibrationCalls
       @ [Modify_SPI_Reg_bits_DC_BYP_RXTSP 0, ControlStream 10 True, ControlStream 11 True,
          Modify_SPI_Reg_bits_DC_BYP_RXTSP 0, ControlStream 10 True, ControlStream 11 True]\<rparr>\<rparr>"

definition drvRate0 :: "nat SoapyLMS7" where
  "drvRate0 = drv0\<lparr>conn := conn0\<lparr>hwRate := 0, setupResps := [(0, 10)], controlResps := [0]\<rparr>\<rparr>"

definition drvRate0S :: "nat SoapyLMS7" where
  "drvRate0S = drv0\<lparr>conn := conn0\<lparr>hwRate := 0, controlResps := [0],
         calls := [SetupStream (config_default\<lparr>channelID := 0, performanceLatency := 0\<rparr>),
                   GetStreamSize 10]\<rparr>,
       channelsToCal := [(1, 0)]\<rparr>"

section \<open>Properties of fastForward\<close>

lemma unat_min_word: "unat (min a b) = min (unat a) (unat (b::'a::len word))"
  by (simp add: min_def word_le_nat_alt)

lemma unat_mult_bounded:
  fixes a b :: size_t
  assumes "unat a * unat b < 2 ^ 64"
  shows "unat (a * b) = unat a * unat b"
  using assms unat_mult_lem [of a b] by simp

lemma fastForward_same_time:
  "fastForward buff n es t t = (buff, n)"
  by (simp add: fastForward_def memmove_def)

text \<open>
  Claim C4. With \<open>desiredHeadTime \<ge> oldHeadTime\<close> and a buffer that holds the
  \<open>numWritten\<close> elements of \<open>es\<close> bytes each, fastForward removes exactly
  \<open>min (desiredHeadTime - oldHeadTime) numWritten\<close> elements from the front (never more
  than are present), the remaining elements are moved to the start of the buffer, the buffer
  keeps its length, and with equal head times (delta 0) count and contents are unchanged,
  however often it is applied.
\<close>

theorem fastForward_removes_min:
  assumes le: "oldHeadTime \<le> desiredHeadTime"
    and fits: "unat nw * unat es \<le> length buff"
    and mem: "length buff < 2 ^ 64"
  shows "(let numPop = min (unat desiredHeadTime - unat oldHeadTime) (unat nw);
              r = fastForward buff nw es oldHeadTime desiredHeadTime
          in unat (snd r) = unat nw - numPop
           \<and> numPop \<le> unat nw
           \<and> take (unat (snd r) * unat es) (fst r)
               = take (unat (snd r) * unat es) (drop (numPop * unat es) buff)
           \<and> length (fst r) = length buff
           \<and> fastForward buff nw es oldHeadTime oldHeadTime = (buff, nw)
           \<and> fastForward (fst r) (snd r) es desiredHeadTime desiredHeadTime = r)"
proof -
  define p where "p = min (desiredHeadTime - oldHeadTime) nw"
  define m where "m = nw - p"
  have p_le: "p \<le> nw"
    by (simp add: p_def)
  have up: "unat p = min (unat desiredHeadTime - unat oldHeadTime) (unat nw)"
    using le by (simp add: p_def unat_min_word unat_sub)
  have um: "unat m = unat nw - unat p"
    using p_le by (simp add: m_def unat_sub)
  have up_le: "unat p \<le> unat nw"
    using p_le by (simp add: word_le_nat_alt)
  have "unat p * unat es \<le> unat nw * unat es"
    using up_le by (rule mult_le_mono1)
  then have "unat p * unat es < 2 ^ 64"
    by (rule le_less_trans [OF le_trans [OF _ fits] mem])
  then have pe: "unat (p * es) = unat p * unat es"
    by (rule unat_mult_bounded)
  have "unat m \<le> unat nw"
    using um by simp
  then have "unat m * unat es \<le> unat nw * unat es"
    by (rule mult_le_mono1)
  then have "unat m * unat es < 2 ^ 64"
    by (rule le_less_trans [OF le_trans [OF _ fits] mem])
  then have me: "unat (m * es) = unat m * unat es"
    by (rule unat_mult_bounded)
  have sum: "unat p * unat es + unat m * unat es \<le> length buff"
  proof -
    have "unat p * unat es + unat m * unat es = (unat p + unat m) * unat es"
      by (simp add: add_mult_distrib)
    also have "unat p + unat m = unat nw"
      using um up_le by simp
    finally show ?thesis using fits by simp
  qed
  have r: "fastForward buff nw es oldHeadTime desiredHeadTime
             = (memmove buff (unat p * unat es) (unat m * unat es), m)"
    by (simp add: fastForward_def Let_def p_def [symmetric] m_def [symmetric] pe me)
  have len: "length (memmove buff (unat p * unat es) (unat m * unat es)) = length buff"
    using sum by (simp add: memmove_def)
  have front: "take (unat m * unat es) (memmove buff (unat p * unat es) (unat m * unat es))
                 = take (unat m * unat es) (drop (unat p * unat es) buff)"
    using sum by (simp add: memmove_def)
  show ?thesis
    unfolding Let_def r
    using um up up_le len front
    by (simp add: fastForward_same_time)
qed

theorem fastForward_removes_min_witness:
  "(10::uint64_t) \<le> 11 \<and> unat (3::size_t) * unat (2::size_t) \<le> length [1, 2, 3, 4, 5, 6::nat]
     \<and> fastForward [1, 2, 3, 4, 5, 6::nat] 3 2 10 11 = ([3, 4, 5, 6, 5, 6], 2)
     \<and> unat (snd (fastForward [1, 2, 3, 4, 5, 6::nat] 3 2 10 11)) = 3 - 1"
proof -
  have a: "(10::uint64_t) \<le> 11" by simp
  have b: "unat (3::size_t) * unat (2::size_t) \<le> length [1, 2, 3, 4, 5, 6::nat]" by simp
  have c: "length [1, 2, 3, 4, 5, 6::nat] < 2 ^ 64" by simp
  have d: "fastForward [1, 2, 3, 4, 5, 6::nat] 3 2 10 11 = ([3, 4, 5, 6, 5, 6], 2)"
    by (simp add: fastForward_def memmove_def Let_def)
  from fastForward_removes_min [OF a b c] a b d show ?thesis
    by (simp add: Let_def)
qed

section \<open>Properties of writeStream\<close>

lemma writeRest_result:
  "length ids \<le> length (writeResps c) \<Longrightarrow>
   \<exists>c'. writeRest c ids st md =
      Some (if list_all (\<lambda>r. r = st) (take (length ids) (writeResps c)) then st else SOAPY_SDR_CORRUPTION, c')
    \<and> calls c' = calls c @ map (\<lambda>sid. WriteStream sid (scast st) 1000 md)
          (take (Suc (length (takeWhile (\<lambda>r. r = st) (writeResps c)))) ids)"
proof (induction ids arbitrary: c)
  case Nil
  then show ?case by simp
next
  case (Cons sid ids)
  then obtain r rs where rs: "writeResps c = r # rs"
    by (cases "writeResps c") auto
  let ?c' = "c\<lparr>writeResps := rs, calls := calls c @ [WriteStream sid (scast st) 1000 md]\<rparr>"
  have w: "conn_WriteStream c sid (scast st) 1000 md = Some (r, ?c')"
    by (simp add: conn_WriteStream_def rs)
  show ?case
  proof (cases "r = st")
    case False
    then show ?thesis using w rs by simp
  next
    case True
    have "length ids \<le> length (writeResps ?c')" using Cons.prems rs by simp
    from Cons.IH [OF this] obtain c'' where
      "writeRest ?c' ids st md =
        Some (if list_all (\<lambda>r. r = st) (take (length ids) rs) then st else SOAPY_SDR_CORRUPTION, c'')"
      "calls c'' = calls ?c' @ map (\<lambda>sid. WriteStream sid (scast st) 1000 md)
          (take (Suc (length (takeWhile (\<lambda>r. r = st) rs))) ids)"
      by auto
    then show ?thesis using w rs True by simp
  qed
qed

text \<open>
  Claim C6. When the write to channel 0 takes \<open>r0 > 0\<close> elements, every later channel is
  written with exactly \<open>r0\<close> elements and a 1000 ms timeout, in channel order, up to and
  including the first channel whose write returns something else; the call returns
  \<open>SOAPY_SDR_CORRUPTION\<close> if there is such a channel (never a short count), and
  \<open>r0\<close>, the count of channel 0, otherwise.
\<close>

theorem writeStream_multichannel:
  assumes ids: "streamID stream = sid0 # rest"
    and resp: "writeResps c = r0 # rs"
    and pos: "0 < sint r0"
    and enough: "length rest \<le> length rs"
  shows "\<exists>c'. writeStream L md0 c stream n fl tNs timeoutUs
            = Some (if list_all (\<lambda>r. r = r0) (take (length rest) rs) then r0
                    else SOAPY_SDR_CORRUPTION, c')
          \<and> calls c' = calls c
              @ WriteStream sid0 n (cdiv timeoutUs 1000)
                  (md0\<lparr>timestamp := timeNsToTicks L tNs (hwRate c),
                       hasTimestamp := (fl AND SOAPY_SDR_HAS_TIME \<noteq> 0),
                       endOfBurst := (fl AND SOAPY_SDR_END_BURST \<noteq> 0)\<rparr>)
              # map (\<lambda>sid. WriteStream sid (scast r0) 1000
                  (md0\<lparr>timestamp := timeNsToTicks L tNs (hwRate c),
                       hasTimestamp := (fl AND SOAPY_SDR_HAS_TIME \<noteq> 0),
                       endOfBurst := (fl AND SOAPY_SDR_END_BURST \<noteq> 0)\<rparr>))
                  (take (Suc (length (takeWhile (\<lambda>r. r = r0) rs))) rest)"
proof -
  let ?md = "md0\<lparr>timestamp := timeNsToTicks L tNs (hwRate c),
                   hasTimestamp := (fl AND SOAPY_SDR_HAS_TIME \<noteq> 0),
                   endOfBurst := (fl AND SOAPY_SDR_END_BURST \<noteq> 0)\<rparr>"
  let ?c1 = "c\<lparr>writeResps := rs, calls := calls c @ [WriteStream sid0 n (cdiv timeoutUs 1000) ?md]\<rparr>"
  have nz: "r0 \<noteq> 0"
    using pos by auto
  have nneg: "\<not> sint r0 < 0"
    using pos by linarith
  have first: "conn_WriteStream c sid0 n (cdiv timeoutUs 1000) ?md = Some (r0, ?c1)"
    by (simp add: conn_WriteStream_def resp)
  have ws: "writeStream L md0 c stream n fl tNs timeoutUs = writeRest ?c1 rest r0 ?md"
    unfolding writeStream_def ids list.case Let_def first option.case prod.case
    using nz nneg by (simp only: if_False)
  have "length rest \<le> length (writeResps ?c1)"
    using enough by simp
  from writeRest_result [OF this, of r0 ?md] show ?thesis
    unfolding ws by simp
qed

theorem writeStream_multichannel_witness:
  "fst (the (writeStream lib0 md_default (conn0\<lparr>writeResps := [64, 60]\<rparr>) stream2 64 0 0 100000))
     = SOAPY_SDR_CORRUPTION
   \<and> fst (the (writeStream lib0 md_default (conn0\<lparr>writeResps := [64, 64]\<rparr>) stream2 64 0 0 100000)) = 64"
proof -
  have a: "streamID stream2 = 0 # [1]" by (simp add: stream2_def)
  have p: "0 < sint (64::cint)" by simp
  have b: "writeResps (conn0\<lparr>writeResps := [64, 60]\<rparr>) = 64 # [60]" by simp
  have b': "writeResps (conn0\<lparr>writeResps := [64, 64]\<rparr>) = 64 # [64]" by simp
  have l: "length [1::size_t] \<le> length [60::cint]" by simp
  have l': "length [1::size_t] \<le> length [64::cint]" by simp
  from writeStream_multichannel [OF a b p l, of lib0 md_default 64 0 0 100000]
       writeStream_multichannel [OF a b' p l', of lib0 md_default 64 0 0 100000]
  show ?thesis by auto
qed

section \<open>Properties of readStreamStatus\<close>








section \<open>Properties of setupStream\<close>

text \<open>
  Claim C8. The claim says that the configuration passed to the transport carries the
  caller's latency, clamped to the interval from 0 to 1. The source computes that value and
  then overwrites it (line 149): with the argument \<open>latency = 0.7\<close> the configuration that
  reaches \<open>SetupStream\<close> has \<open>performanceLatency = 0\<close>.
\<close>

theorem setupStream_latency_overridden:
  "stof lib1 ''0.7'' = Inr (7 / 10)
   \<and> setupStream lib1 config_default raw_stream (drv0\<lparr>conn := conn0\<lparr>setupResps := [(0, 10)]\<rparr>\<rparr>)
        SOAPY_SDR_RX ''CS16'' [0] [''latency'' \<mapsto> ''0.7'']
      = Some (Inr (raw_stream\<lparr>streamID := [10], direction := 1, elemSize := 4\<rparr>),
          drv0\<lparr>conn := conn0\<lparr>calls :=
                   [SetupStream (config_default\<lparr>channelID := 0, performanceLatency := 0\<rparr>),
                    GetStreamSize 10]\<rparr>,
               channelsToCal := [(1, 0)]\<rparr>)"
  by (simp add: setupStream_def drv0_def conn0_def lib0_def lib1_def raw_stream_def
      config_default_def channelConfig_def setFormat_def setBufferLength_def setLatency_def
      conn_SetupStream_def conn_GetStreamSize_def SOAPY_SDR_RX_def SOAPY_SDR_TX_def
      SOAPY_SDR_CF32_def SOAPY_SDR_CS16_def SOAPY_SDR_CS12_def insort_insert_key_def)

lemma setupChannels_conn:
  "setupChannels L dargs fmt args c config stream chs = Some (res, c') \<Longrightarrow>
   streamSize c' = streamSize c"
proof (induction chs arbitrary: c config stream)
  case Nil
  then show ?case by simp
next
  case (Cons ch chs)
  then show ?case
    by (auto simp: conn_SetupStream_def conn_GetStreamSize_def
        split: sum.splits option.splits list.splits if_splits)
qed

lemma setupChannels_mtu:
  "setupChannels L dargs fmt args c config stream chs = Some (Inr s, c') \<Longrightarrow>
   \<exists>sids. streamID s = streamID stream @ sids \<and> length sids = length chs
      \<and> elemMTU s = (if chs = [] then elemMTU stream else streamSize c (last sids))"
proof (induction chs arbitrary: c config stream)
  case Nil
  then show ?case by simp
next
  case (Cons ch chs)
  from Cons.prems obtain config1 where cfg: "channelConfig L dargs fmt args config ch = Inr config1"
    by (auto split: sum.splits)
  from Cons.prems cfg obtain sid rs where rs: "setupResps c = (0, sid) # rs"
    by (auto simp: conn_SetupStream_def split: list.splits if_splits)
  let ?c1 = "c\<lparr>setupResps := rs, calls := calls c @ [SetupStream config1]\<rparr>"
  let ?c2 = "?c1\<lparr>calls := calls ?c1 @ [GetStreamSize sid]\<rparr>"
  let ?s1 = "stream\<lparr>streamID := streamID stream @ [sid], elemMTU := streamSize c sid, enabled := False\<rparr>"
  from Cons.prems cfg rs
  have rec: "setupChannels L dargs fmt args ?c2 config1 ?s1 chs = Some (Inr s, c')"
    by (simp add: conn_SetupStream_def conn_GetStreamSize_def)
  from Cons.IH [OF rec] obtain sids where
    k: "streamID s = streamID ?s1 @ sids" "length sids = length chs"
       "elemMTU s = (if chs = [] then elemMTU ?s1 else streamSize ?c2 (last sids))"
    by blast
  have "streamID s = streamID stream @ (sid # sids)"
    using k(1) by simp
  moreover have "length (sid # sids) = length (ch # chs)"
    using k(2) by simp
  moreover have "elemMTU s = streamSize c (last (sid # sids))"
    using k(2) k(3) by (cases chs) auto
  ultimately show ?case by (intro exI [of _ "sid # sids"]) simp
qed

lemma controlAll_streamSize:
  "controlAll c en ids = Some (ok, c') \<Longrightarrow> streamSize c' = streamSize c"
  by (induction ids arbitrary: c)
     (auto simp: conn_ControlStream_def split: option.splits list.splits if_splits)

lemma activateStream_elemMTU:
  "activateStream drv s fl tNs n = Some (r, s', drv') \<Longrightarrow> elemMTU s' = elemMTU s"
  by (auto simp: activateStream_def Let_def split: if_splits prod.splits option.splits bool.splits)

lemma deactivateStream_elemMTU:
  "deactivateStream drv s fl tNs = Some (r, s', drv') \<Longrightarrow> elemMTU s' = elemMTU s"
  by (auto simp: deactivateStream_def Let_def split: if_splits prod.splits option.splits bool.splits)

lemma burstAccount_elemMTU:
  "burstAccount status s md = (status', s', md') \<Longrightarrow> elemMTU s' = elemMTU s"
  by (auto simp: burstAccount_def Let_def split: if_splits)

lemma readStream_elemMTU:
  "readStream L md0 c s bufs n fl tNs tmo = Some (r, s', flo, tno, bufs', c') \<Longrightarrow> elemMTU s' = elemMTU s"
  by (auto simp: readStream_def Let_def dest!: burstAccount_elemMTU
      split: if_splits prod.splits option.splits)

text \<open>
  Claim C9, as amended. The \<open>elemMTU\<close> of a handle that setupStream returns, which is
  what getStreamMTU reports, is the stream size the transport reports for the last channel
  that was set up: the loop assigns it once per channel. For a list of at most one channel
  that is channel 0. activateStream, deactivateStream and readStream leave it unchanged.
\<close>

theorem setupStream_elemMTU_last:
  assumes "setupStream L config0 raw drv dir fmt channels args = Some (Inr s, drv')"
  shows "streamID s \<noteq> []
     \<and> getStreamMTU s = streamSize (conn drv') (last (streamID s))
     \<and> (length channels \<le> 1 \<longrightarrow> getStreamMTU s = streamSize (conn drv') (hd (streamID s)))
     \<and> (\<forall>d fl tNs n r s' d'.
           activateStream d s fl tNs n = Some (r, s', d') \<longrightarrow> getStreamMTU s' = getStreamMTU s)
     \<and> (\<forall>d fl tNs r s' d'.
           deactivateStream d s fl tNs = Some (r, s', d') \<longrightarrow> getStreamMTU s' = getStreamMTU s)
     \<and> (\<forall>md0 c bufs n fl tNs tmo r s' flo tno bufs' c'.
           readStream L md0 c s bufs n fl tNs tmo = Some (r, s', flo, tno, bufs', c')
             \<longrightarrow> getStreamMTU s' = getStreamMTU s)"
proof -
  let ?chs = "if channels = [] then [0] else channels"
  let ?stream = "raw\<lparr>streamID := [], direction := dir, elemSize := formatToSize L fmt, hasCmd := False\<rparr>"
  let ?config = "config0\<lparr>isTx := (dir = SOAPY_SDR_TX), performanceLatency := 0.5\<rparr>"
  from assms obtain c' where
    sc: "setupChannels L (deviceArgs drv) fmt args (conn drv) ?config ?stream ?chs = Some (Inr s, c')"
    and c': "conn drv' = c'"
    by (auto simp: setupStream_def Let_def split: option.splits sum.splits)
  from setupChannels_mtu [OF sc] obtain sids where
    k: "streamID s = sids" "length sids = length ?chs" "elemMTU s = streamSize (conn drv) (last sids)"
    by (auto split: if_splits)
  have ss: "streamSize c' = streamSize (conn drv)"
    using setupChannels_conn [OF sc] .
  have ne: "streamID s \<noteq> []"
    using k(1) k(2) by (auto split: if_splits)
  have mtu: "getStreamMTU s = streamSize (conn drv') (last (streamID s))"
    using k ss c' by (simp add: getStreamMTU_def)
  have one: "length channels \<le> 1 \<longrightarrow> getStreamMTU s = streamSize (conn drv') (hd (streamID s))"
  proof
    assume "length channels \<le> 1"
    then have "length sids = 1" using k(2) by (cases channels) auto
    then have "last sids = hd sids" by (cases sids) auto
    with mtu k(1) show "getStreamMTU s = streamSize (conn drv') (hd (streamID s))" by simp
  qed
  show ?thesis
    using ne mtu one
    by (auto simp: getStreamMTU_def dest: activateStream_elemMTU deactivateStream_elemMTU
        readStream_elemMTU)
qed

lemma setup_two:
  "setupStream lib0 config_default raw_stream (drv0\<lparr>conn := connMTU\<rparr>) SOAPY_SDR_RX ''CS16'' [0, 1]
      Map.empty
   = Some (Inr stream_two, drv_two)"
  by (simp add: setupStream_def drv0_def connMTU_def conn0_def lib0_def raw_stream_def
      config_default_def channelConfig_def setFormat_def setBufferLength_def setLatency_def
      conn_SetupStream_def conn_GetStreamSize_def SOAPY_SDR_RX_def SOAPY_SDR_TX_def
      SOAPY_SDR_CF32_def SOAPY_SDR_CS16_def SOAPY_SDR_CS12_def insort_insert_key_def
      stream_two_def drv_two_def)

theorem setupStream_elemMTU_last_witness:
  "setupStream lib0 config_default raw_stream (drv0\<lparr>conn := connMTU\<rparr>) SOAPY_SDR_RX ''CS16'' [0, 1]
      Map.empty = Some (Inr stream_two, drv_two)
   \<and> getStreamMTU stream_two = streamSize (conn drv_two) (last (streamID stream_two))
   \<and> streamSize (conn drv_two) (last (streamID stream_two)) = 1360"
proof -
  have "getStreamMTU stream_two = streamSize (conn drv_two) (last (streamID stream_two))"
    using setupStream_elemMTU_last [OF setup_two] by blast
  moreover have "streamSize (conn drv_two) (last (streamID stream_two)) = 1360"
    by (simp add: drv_two_def stream_two_def connMTU_def)
  ultimately show ?thesis using setup_two by simp
qed

text \<open>
  The claim as stated, with channel 0 authoritative, fails for two channels whose streams
  have different sizes: the handle reports 1360, the size of the second stream, while the
  stream of channel 0 has size 1020.
\<close>

theorem elemMTU_channel0_counterexample:
  "setupStream lib0 config_default raw_stream (drv0\<lparr>conn := connMTU\<rparr>) SOAPY_SDR_RX ''CS16'' [0, 1]
      Map.empty = Some (Inr stream_two, drv_two)
   \<and> getStreamMTU stream_two = 1360
   \<and> streamSize (conn drv_two) (streamID stream_two ! 0) = 1020"
proof -
  have "getStreamMTU stream_two = 1360"
    by (simp add: getStreamMTU_def stream_two_def)
  moreover have "streamSize (conn drv_two) (streamID stream_two ! 0) = 1020"
    by (simp add: drv_two_def stream_two_def connMTU_def)
  ultimately show ?thesis using setup_two by simp
qed

section \<open>The aligned read: buffers that do not begin at the returned timestamp\<close>

text \<open>
  Claim C1. The claim says that after a successful aligned read all channel buffers begin
  at the returned timestamp and hold the returned count. Two runs of the source where
  they do not, with two channels, element size 1 and the ticks of the samples as elements.

  First run: the source uses request time 0 for "no request time", so a first segment that
  really starts at tick 0 leaves the request time unset, and the segment of the next channel
  is taken as the new head without any comparison. Four elements are requested at request
  time 0; channel 0 delivers ticks 0-3, channel 1 delivers ticks 5 and 6. The call returns 2
  with timestamp 5, while buffer 0 begins at tick 0 and holds 4 elements.

  Second run: a restart fast-forwards the channels before the current one only, and sets
  the count to the size of the last segment. Ten elements are requested at request time
  100. Channel 0 delivers ticks 100-109; channel 1 delivers two elements at tick 105, so
  channel 0 is cut to ticks 105-109 and the count becomes 2; channel 0, which now holds more
  than the count, is read again (with the length 2 - 5 in \<^verbatim>\<open>size_t\<close>) and delivers four
  elements at tick 120, which restarts at channel 0 and leaves channel 1 as it was; channel
  1 then delivers ticks 122 and 123. The call returns 4 with timestamp 120, while buffer 1
  holds ticks 105, 106, 122, 123.
\<close>

theorem readStreamAligned_misaligned:
  "readStreamAligned (conn0\<lparr>readResps := [(4, mdAt 0, [0, 1, 2, 3]), (2, mdAt 5, [5, 6])]\<rparr>)
      stream2rx (\<lambda>ch. [9, 9, 9, 9]) 4 0 md_default 100
   = Some (2, mdAt 5, (\<lambda>ch. [9, 9, 9, 9])(0 := [0, 1, 2, 3], 1 := [5, 6, 9, 9]),
           conn0\<lparr>calls := [ReadStream 0 4 100, ReadStream 1 4 100]\<rparr>)
   \<and> readStreamAligned
        (conn0\<lparr>readResps := [(10, mdAt 100, [100, 101, 102, 103, 104, 105, 106, 107, 108, 109]),
                               (2, mdAt 105, [105, 106]),
                               (4, mdAt 120, [120, 121, 122, 123]),
                               (2, mdAt 122, [122, 123])]\<rparr>)
        stream2rx (\<lambda>ch. [0, 0, 0, 0, 0, 0, 0, 0, 0, 0]) 10 100 md_default 100
     = Some (4, mdAt 120,
             (\<lambda>ch. [0, 0, 0, 0, 0, 0, 0, 0, 0, 0])
               (0 := [120, 121, 122, 123, 109, 120, 121, 122, 123, 109],
                1 := [105, 106, 122, 123, 0, 0, 0, 0, 0, 0]),
             conn0\<lparr>calls := [ReadStream 0 10 100, ReadStream 1 10 100,
                               ReadStream 0 18446744073709551613 100, ReadStream 1 2 100]\<rparr>)"
  by (simp add: readStreamAligned_def alignLoop.simps stream2rx_def conn0_def md_default_def
      mdAt_def alignBody_def advance_def updateHead_def restart_def ffChannel_def
      fastForward_def memmove_def write_at_def Let_def)

section \<open>Properties of readStream: finite bursts\<close>

lemma sint_as_uint:
  fixes s :: cint
  assumes "0 \<le> sint s"
  shows "sint s = uint s"
proof -
  have "uint s = sint s mod 2 ^ 32"
    using uint_word_of_int [of "sint s", where 'a = 32] by simp
  moreover have "sint s < 2 ^ 32"
    using sint_lt [of s] by simp
  ultimately show ?thesis using assms by simp
qed

lemma small_sint:
  fixes s :: cint
  assumes "uint s < 2 ^ 31"
  shows "sint s = uint s"
proof -
  have "(- (2 ^ 31) :: int) \<le> 0"
    by simp
  also have "0 \<le> uint s"
    by simp
  finally have "- (2 ^ 31) \<le> uint s" .
  then have "signed_take_bit 31 (uint s) = uint s"
    using assms by (simp add: signed_take_bit_int_eq_self_iff)
  then show ?thesis by (simp add: sint_uint)
qed

lemma uint_scast_nonneg:
  fixes s :: cint
  assumes "0 \<le> sint s"
  shows "uint (scast s :: size_t) = uint s"
proof -
  have "uint s < 2 ^ 32" using uint_lt2p [of s] by simp
  then have lt: "uint s < 2 ^ 64" by simp
  have "uint (scast s :: size_t) = sint s mod 2 ^ 64"
    unfolding scast_eq uint_word_of_int by simp
  also have "\<dots> = uint s mod 2 ^ 64"
    by (simp only: sint_as_uint [OF assms])
  also have "\<dots> = uint s"
    using lt by simp
  finally show ?thesis .
qed

lemma burst_clip:
  fixes s :: cint and K :: size_t
  assumes "0 \<le> sint s"
  shows "0 \<le> sint (ucast (min (scast s) K) :: cint)"
    and "(scast (ucast (min (scast s) K) :: cint) :: size_t) = min (scast s) K"
    and "uint (ucast (min (scast s) K) :: cint) = min (uint s) (uint K)"
proof -
  let ?m = "min (scast s) K :: size_t"
  have us: "uint s < 2 ^ 31"
    using sint_as_uint [OF assms] sint_lt [of s] by simp
  have um: "uint ?m = min (uint s) (uint K)"
    using uint_scast_nonneg [OF assms] by (simp add: min_def word_le_def)
  then have small: "uint ?m < 2 ^ 31" using us by simp
  have nn: "0 \<le> uint ?m" by simp
  have uc: "uint (ucast ?m :: cint) = uint ?m"
    using small nn by (simp add: unsigned_ucast_eq take_bit_eq_mod)
  show "uint (ucast ?m :: cint) = min (uint s) (uint K)"
    using uc um by simp
  have si: "sint (ucast ?m :: cint) = uint ?m"
    using small_sint [of "ucast ?m"] uc small by simp
  then show "0 \<le> sint (ucast ?m :: cint)" by simp
  have "(scast (ucast ?m :: cint) :: size_t) = word_of_int (sint (ucast ?m :: cint))"
    by (rule scast_eq)
  also have "\<dots> = word_of_int (uint ?m)"
    by (simp only: si)
  also have "\<dots> = ?m"
    by (rule word_of_int_uint)
  finally show "(scast (ucast ?m :: cint) :: size_t) = ?m" .
qed

lemma meta_ffChannel [simp]: "meta (ffChannel esz a b j st) = meta st"
  by (simp add: ffChannel_def split: prod.splits)

lemma meta_fold_ffChannel [simp]: "meta (fold (ffChannel esz a b) js st) = meta st"
  by (induction js arbitrary: st) auto

lemma meta_restart [simp]: "meta (restart esz prevN st) = meta st"
  by (simp add: restart_def Let_def)


lemma meta_advance [simp]: "meta (advance st) = meta st"
  by (simp add: advance_def)



lemma burstAccount_step:
  assumes b: "burstAccount status ic md = (s1, ic1, md1)"
    and nn: "0 \<le> sint status"
    and R: "numElems ic \<noteq> 0"
  shows "0 \<le> sint s1"
    and "unat s1 \<le> unat (numElems ic)"
    and "unat (numElems ic1) = unat (numElems ic) - unat s1"
    and "hasCmd ic1 = (hasCmd ic \<and> numElems ic1 \<noteq> 0)"
    and "endOfBurst md1 = (endOfBurst md \<or> numElems ic1 = 0)"
    and "hasTimestamp md1 = hasTimestamp md"
    and "flags ic1 = flags ic"
    and "unat s1 = min (unat status) (unat (numElems ic))"
    and "timestamp md1 = timestamp md"
proof -
  let ?K = "numElems ic"
  let ?s = "ucast (min (scast status) ?K) :: cint"
  have s1: "s1 = ?s"
    using b R by (auto simp: burstAccount_def Let_def split: if_splits)
  have sc: "(scast ?s :: size_t) = min (scast status) ?K"
    by (rule burst_clip(2) [OF nn])
  have le: "min (scast status) ?K \<le> ?K"
    by simp
  have n1: "numElems ic1 = ?K - min (scast status) ?K"
    using b R sc by (auto simp: burstAccount_def Let_def split: if_splits)
  show "0 \<le> sint s1"
    unfolding s1 by (rule burst_clip(1) [OF nn])
  have us: "uint ?s = min (uint status) (uint ?K)"
    by (rule burst_clip(3) [OF nn])
  have "uint (min (scast status) ?K) = min (uint (scast status :: size_t)) (uint ?K)"
    by (simp add: min_def word_le_def)
  also have "\<dots> = min (uint status) (uint ?K)"
    by (simp only: uint_scast_nonneg [OF nn])
  finally have eq: "uint (min (scast status) ?K) = min (uint status) (uint ?K)" .
  have us': "uint ?s = uint (min (scast status) ?K)"
    by (rule trans [OF us eq [symmetric]])
  have un: "unat ?s = unat (min (scast status) ?K)"
    unfolding unat_eq_nat_uint us' by (rule refl)
  show "unat s1 \<le> unat ?K"
    unfolding s1 un using le by (simp add: word_le_nat_alt)
  show "unat (numElems ic1) = unat ?K - unat s1"
    unfolding s1 un n1 by (rule unat_sub [OF le])
  show "hasCmd ic1 = (hasCmd ic \<and> numElems ic1 \<noteq> 0)"
    using b R sc by (auto simp: burstAccount_def Let_def split: if_splits)
  show "endOfBurst md1 = (endOfBurst md \<or> numElems ic1 = 0)"
    using b R sc by (auto simp: burstAccount_def Let_def split: if_splits)
  show "hasTimestamp md1 = hasTimestamp md"
    using b R by (auto simp: burstAccount_def Let_def split: if_splits)
  show "flags ic1 = flags ic"
    using b R by (auto simp: burstAccount_def Let_def split: if_splits)
  have mono: "nat (min a b) = min (nat a) (nat b)" if "0 \<le> a" "0 \<le> b" for a b :: int
    using that by (auto simp: min_def)
  have "unat ?s = nat (uint ?s)"
    by (rule unat_eq_nat_uint)
  also have "\<dots> = nat (min (uint status) (uint ?K))"
    by (simp only: us)
  also have "\<dots> = min (nat (uint status)) (nat (uint ?K))"
    by (rule mono) simp_all
  also have "\<dots> = min (unat status) (unat ?K)"
    by (simp only: unat_eq_nat_uint)
  finally show "unat s1 = min (unat status) (unat ?K)"
    unfolding s1 .
  show "timestamp md1 = timestamp md"
    using b R by (auto simp: burstAccount_def Let_def split: if_splits)
qed



















section \<open>Properties of readStream: the commanded time\<close>

text \<open>
  Claim C3. A readStream call with a pending command that has the HAS_TIME flag, whose
  aligned read succeeds and returns a timestamp: when the commanded tick time is earlier
  than the returned timestamp the command is cleared and \<open>SOAPY_SDR_TIME_ERROR\<close> is
  returned; when it is later, \<open>SOAPY_SDR_STREAM_ERROR\<close> is returned and the handle is
  unchanged; when they are equal the call goes on with the HAS_TIME flag cleared from the
  pending command, so that the next call computes the tick time 0.
\<close>

theorem readStream_time_check:
  assumes cmd: "hasCmd ic"
    and ht: "flags ic AND SOAPY_SDR_HAS_TIME \<noteq> 0"
    and al: "readStreamAligned c ic bufs
               (if fl AND SOAPY_SDR_ONE_PACKET \<noteq> 0 then min n (elemMTU ic) else n)
               (timeNsToTicks L (timeNs ic) (hwRate c)) md0 (cdiv timeoutUs 1000)
             = Some (status, metadata, bufs', c')"
    and ok: "0 \<le> sint status"
    and ts: "hasTimestamp metadata"
  shows "if timeNsToTicks L (timeNs ic) (hwRate c) < timestamp metadata
         then readStream L md0 c ic bufs n fl tNs timeoutUs
                = Some (SOAPY_SDR_TIME_ERROR, ic\<lparr>hasCmd := False\<rparr>, fl, tNs, bufs', c')
         else if timestamp metadata < timeNsToTicks L (timeNs ic) (hwRate c)
         then readStream L md0 c ic bufs n fl tNs timeoutUs
                = Some (SOAPY_SDR_STREAM_ERROR, ic, fl, tNs, bufs', c')
         else (\<exists>status2 ic2 flo tno.
                 readStream L md0 c ic bufs n fl tNs timeoutUs
                   = Some (status2, ic2, flo, tno, bufs', c')
               \<and> 0 \<le> sint status2
               \<and> flags ic2 = flags ic AND NOT SOAPY_SDR_HAS_TIME
               \<and> flags ic2 AND SOAPY_SDR_HAS_TIME = 0
               \<and> (if flags ic2 AND SOAPY_SDR_HAS_TIME \<noteq> 0
                   then timeNsToTicks L (timeNs ic2) (hwRate c') else 0) = 0)"
proof -
  let ?ticks = "timeNsToTicks L (timeNs ic) (hwRate c)"
  have nneg: "\<not> sint status < 0" using ok by simp
  consider (late) "?ticks < timestamp metadata"
    | (early) "timestamp metadata < ?ticks"
    | (eq) "?ticks = timestamp metadata"
    by (meson linorder_neqE)
  then show ?thesis
  proof cases
    case late
    then show ?thesis
      using cmd ht al nneg ts by (simp add: readStream_def Let_def)
  next
    case early
    then have "\<not> ?ticks < timestamp metadata" "?ticks \<noteq> timestamp metadata"
      by auto
    with early show ?thesis
      using cmd ht al nneg ts by (simp add: readStream_def Let_def)
  next
    case eq
    let ?ic1 = "ic\<lparr>flags := flags ic AND NOT SOAPY_SDR_HAS_TIME\<rparr>"
    obtain s2 ic2 md2 where b: "burstAccount status ?ic1 metadata = (s2, ic2, md2)"
      by (cases "burstAccount status ?ic1 metadata") auto
    have f2: "flags ic2 = flags ic AND NOT SOAPY_SDR_HAS_TIME"
      using b by (auto simp: burstAccount_def Let_def split: if_splits)
    have s2: "0 \<le> sint s2"
    proof (cases "numElems ?ic1 = 0")
      case True
      with b ok show ?thesis by (simp add: burstAccount_def)
    next
      case False
      from burstAccount_step(1) [OF b ok False] show ?thesis .
    qed
    have clr: "flags ic2 AND SOAPY_SDR_HAS_TIME = 0"
      unfolding f2 by (simp add: word_bw_assocs)
    have "readStream L md0 c ic bufs n fl tNs timeoutUs
            = Some (s2, ic2,
                (if endOfBurst md2 then SOAPY_SDR_END_BURST else 0)
                  OR (if hasTimestamp md2 then SOAPY_SDR_HAS_TIME else 0),
                ticksToTimeNs L (timestamp md2) (hwRate c'), bufs', c')"
      using cmd ht al nneg ts eq b s2 by (simp add: readStream_def Let_def)
    with s2 f2 clr eq show ?thesis by simp
  qed
qed

lemma aligned_late:
  "readStreamAligned (connRead [(4, mdAt 107, [1, 2, 3, 4])]) (streamTimed 100) (\<lambda>ch. [0, 0, 0, 0])
      (if (0::cint) AND SOAPY_SDR_ONE_PACKET \<noteq> 0 then min 4 (elemMTU (streamTimed 100)) else 4)
      (timeNsToTicks lib0 (timeNs (streamTimed 100)) (hwRate (connRead [(4, mdAt 107, [1, 2, 3, 4])])))
      md_default (cdiv 1000 1000)
   = Some (4, mdAt 107, (\<lambda>ch. [0, 0, 0, 0])(0 := [1, 2, 3, 4]),
       conn0\<lparr>calls := [ReadStream 10 4 1]\<rparr>)"
  by (simp add: readStreamAligned_def alignLoop.simps alignBody_def advance_def updateHead_def
      restart_def ffChannel_def fastForward_def memmove_def write_at_def Let_def streamTimed_def
      stream1_def connRead_def conn0_def raw_stream_def md_default_def mdAt_def lib0_def cdiv_def
      SOAPY_SDR_RX_def SOAPY_SDR_HAS_TIME_def SOAPY_SDR_ONE_PACKET_def)

lemma aligned_equal:
  "readStreamAligned (connRead [(4, mdAt 100, [1, 2, 3, 4])]) (streamTimed 100) (\<lambda>ch. [0, 0, 0, 0])
      (if (0::cint) AND SOAPY_SDR_ONE_PACKET \<noteq> 0 then min 4 (elemMTU (streamTimed 100)) else 4)
      (timeNsToTicks lib0 (timeNs (streamTimed 100)) (hwRate (connRead [(4, mdAt 100, [1, 2, 3, 4])])))
      md_default (cdiv 1000 1000)
   = Some (4, mdAt 100, (\<lambda>ch. [0, 0, 0, 0])(0 := [1, 2, 3, 4]),
       conn0\<lparr>calls := [ReadStream 10 4 1]\<rparr>)"
  by (simp add: readStreamAligned_def alignLoop.simps alignBody_def advance_def updateHead_def
      restart_def ffChannel_def fastForward_def memmove_def write_at_def Let_def streamTimed_def
      stream1_def connRead_def conn0_def raw_stream_def md_default_def mdAt_def lib0_def cdiv_def
      SOAPY_SDR_RX_def SOAPY_SDR_HAS_TIME_def SOAPY_SDR_ONE_PACKET_def)

lemma aligned_wrapped:
  "readStreamAligned (connRead [(1, mdAt (- 1), [1]), (1, mdAt 5, [2])]) (streamTimed (- 1))
      (\<lambda>ch. [0, 0])
      (if (0::cint) AND SOAPY_SDR_ONE_PACKET \<noteq> 0 then min 2 (elemMTU (streamTimed (- 1))) else 2)
      (timeNsToTicks lib0 (timeNs (streamTimed (- 1)))
         (hwRate (connRead [(1, mdAt (- 1), [1]), (1, mdAt 5, [2])])))
      md_default (cdiv 1000 1000)
   = Some (1, mdAt 5, (\<lambda>ch. [0, 0])(0 := [2, 2]),
       conn0\<lparr>calls := [ReadStream 10 2 1, ReadStream 10 1 1]\<rparr>)"
  by (simp add: readStreamAligned_def alignLoop.simps alignBody_def advance_def updateHead_def
      restart_def ffChannel_def fastForward_def memmove_def write_at_def Let_def streamTimed_def
      stream1_def connRead_def conn0_def raw_stream_def md_default_def mdAt_def lib0_def cdiv_def
      SOAPY_SDR_RX_def SOAPY_SDR_HAS_TIME_def SOAPY_SDR_ONE_PACKET_def)

theorem readStream_time_check_witness:
  "readStream lib0 md_default (connRead [(4, mdAt 107, [1, 2, 3, 4])]) (streamTimed 100)
       (\<lambda>ch. [0, 0, 0, 0]) 4 0 0 1000
     = Some (SOAPY_SDR_TIME_ERROR, (streamTimed 100)\<lparr>hasCmd := False\<rparr>, 0, 0,
         (\<lambda>ch. [0, 0, 0, 0])(0 := [1, 2, 3, 4]), conn0\<lparr>calls := [ReadStream 10 4 1]\<rparr>)
   \<and> readStream lib0 md_default (connRead [(1, mdAt (- 1), [1]), (1, mdAt 5, [2])])
       (streamTimed (- 1)) (\<lambda>ch. [0, 0]) 2 0 0 1000
     = Some (SOAPY_SDR_STREAM_ERROR, streamTimed (- 1), 0, 0,
         (\<lambda>ch. [0, 0])(0 := [2, 2]), conn0\<lparr>calls := [ReadStream 10 2 1, ReadStream 10 1 1]\<rparr>)
   \<and> (\<exists>status2 ic2 flo tno.
         readStream lib0 md_default (connRead [(4, mdAt 100, [1, 2, 3, 4])]) (streamTimed 100)
             (\<lambda>ch. [0, 0, 0, 0]) 4 0 0 1000
           = Some (status2, ic2, flo, tno, (\<lambda>ch. [0, 0, 0, 0])(0 := [1, 2, 3, 4]),
               conn0\<lparr>calls := [ReadStream 10 4 1]\<rparr>)
         \<and> flags ic2 AND SOAPY_SDR_HAS_TIME = 0)"
proof -
  have cmd: "hasCmd (streamTimed t)" for t
    by (simp add: streamTimed_def)
  have ht: "flags (streamTimed t) AND SOAPY_SDR_HAS_TIME \<noteq> 0" for t
    by (simp add: streamTimed_def SOAPY_SDR_HAS_TIME_def)
  have ok4: "0 \<le> sint (4::cint)" and ok1: "0 \<le> sint (1::cint)"
    by simp_all
  have ts: "hasTimestamp (mdAt t)" for t
    by (simp add: mdAt_def)
  have t1: "timeNsToTicks lib0 (timeNs (streamTimed t)) r = t" for t r
    by (simp add: lib0_def streamTimed_def)
  have m: "timestamp (mdAt t) = t" for t
    by (simp add: mdAt_def)
  have a: "(100::uint64_t) < 107" "\<not> (100::uint64_t) < 100" "\<not> (- 1::uint64_t) < 5"
    "(5::uint64_t) < - 1"
    by simp_all
  from readStream_time_check [OF cmd ht aligned_late ok4 ts, of 0]
       readStream_time_check [OF cmd ht aligned_wrapped ok1 ts, of 0]
       readStream_time_check [OF cmd ht aligned_equal ok4 ts, of 0]
  show ?thesis
    unfolding t1 m using a by simp blast
qed

section \<open>Properties of activateStream: a channel that fails to start\<close>







section \<open>Properties of the pending calibration set\<close>

lemma calibrations_append [simp]:
  "calibrations (xs @ ys) = calibrations xs @ calibrations ys"
  by (induction xs rule: calibrations.induct) auto

lemma calibrate_cases:
  "calibrate bw rf mk dir ch tr = Inl out_of_range
   \<or> (\<exists>b. calibrate bw rf mk dir ch tr = Inr (tr @ [mk ch b]))"
  by (auto simp: calibrate_def split: option.splits)

lemma calibrateAll_spec:
  "calibrateAll bw rf xs tr = (e, remaining, tr') \<Longrightarrow>
   \<exists>done cals. xs = done @ remaining \<and> tr' = tr @ cals
      \<and> calibrations cals = filter hasCalibration done
      \<and> length cals = length (calibrations cals)
      \<and> (e = None \<longrightarrow> remaining = [])"
proof (induction xs arbitrary: tr)
  case Nil
  then show ?case by simp
next
  case (Cons x xs)
  obtain dir ch where x: "x = (dir, ch)" by (cases x) auto
  have ne: "SOAPY_SDR_RX \<noteq> SOAPY_SDR_TX"
    by (simp add: SOAPY_SDR_RX_def SOAPY_SDR_TX_def)
  have stop: ?case if "e \<noteq> None" "remaining = x # xs" "tr' = tr"
    using that by (intro exI [of _ "[]"]) simp
  have continue: ?case
    if rec: "calibrateAll bw rf xs (tr @ cal) = (e, remaining, tr')"
      and cal: "calibrations cal = filter hasCalibration [x]"
               "length cal = length (calibrations cal)"
    for cal
  proof -
    from Cons.IH [OF rec] obtain dn cals where
      k: "xs = dn @ remaining" "tr' = (tr @ cal) @ cals"
         "calibrations cals = filter hasCalibration dn"
         "length cals = length (calibrations cals)"
         "e = None \<longrightarrow> remaining = []"
      by blast
    have "x # xs = (x # dn) @ remaining" using k(1) by simp
    moreover have "tr' = tr @ (cal @ cals)" using k(2) by simp
    moreover have "calibrations (cal @ cals) = filter hasCalibration (x # dn)"
      using k(3) cal(1) by simp
    moreover have "length (cal @ cals) = length (calibrations (cal @ cals))"
      using k(4) cal(2) by simp
    ultimately show ?thesis using k(5) by blast
  qed
  consider (rx) "dir = SOAPY_SDR_RX" | (tx) "dir = SOAPY_SDR_TX"
    | (none) "dir \<noteq> SOAPY_SDR_RX" "dir \<noteq> SOAPY_SDR_TX"
    by blast
  then show ?case
  proof cases
    case rx
    from calibrate_cases [of bw rf CalibrateRx dir ch tr] show ?thesis
    proof (elim disjE exE)
      assume "calibrate bw rf CalibrateRx dir ch tr = Inl out_of_range"
      with Cons.prems x rx have "e \<noteq> None" "remaining = x # xs" "tr' = tr"
        by auto
      then show ?thesis by (rule stop)
    next
      fix b assume "calibrate bw rf CalibrateRx dir ch tr = Inr (tr @ [CalibrateRx ch b])"
      with Cons.prems x rx ne
      have "calibrateAll bw rf xs (tr @ [CalibrateRx ch b]) = (e, remaining, tr')"
        by auto
      then show ?thesis
        by (rule continue) (use rx x in \<open>simp_all add: hasCalibration_def\<close>)
    qed
  next
    case tx
    from calibrate_cases [of bw rf CalibrateTx dir ch tr] show ?thesis
    proof (elim disjE exE)
      assume "calibrate bw rf CalibrateTx dir ch tr = Inl out_of_range"
      with Cons.prems x tx ne have "e \<noteq> None" "remaining = x # xs" "tr' = tr"
        by auto
      then show ?thesis by (rule stop)
    next
      fix b assume "calibrate bw rf CalibrateTx dir ch tr = Inr (tr @ [CalibrateTx ch b])"
      with Cons.prems x tx ne
      have "calibrateAll bw rf xs (tr @ [CalibrateTx ch b]) = (e, remaining, tr')"
        by auto
      then show ?thesis
        by (rule continue) (use tx x in \<open>simp_all add: hasCalibration_def\<close>)
    qed
  next
    case none
    with Cons.prems x have "calibrateAll bw rf xs (tr @ []) = (e, remaining, tr')"
      by simp
    then show ?thesis
      by (rule continue) (use none x in \<open>simp_all add: hasCalibration_def\<close>)
  qed
qed

lemma calibrations_controls:
  "\<forall>x\<in>set ctl. \<exists>sid. x = ControlStream sid en \<Longrightarrow> calibrations ctl = []"
  by (induction ctl) auto

lemma controlAll_calls:
  "controlAll c en ids = Some (ok, c') \<Longrightarrow>
   \<exists>ctl. calls c' = calls c @ ctl \<and> (\<forall>x\<in>set ctl. \<exists>sid. x = ControlStream sid en)"
proof (induction ids arbitrary: c)
  case Nil
  then show ?case by simp
next
  case (Cons sid ids)
  from Cons.prems obtain r rs where rs: "controlResps c = r # rs"
    by (cases "controlResps c") (auto simp: conn_ControlStream_def)
  let ?c1 = "c\<lparr>controlResps := rs, calls := calls c @ [ControlStream sid en]\<rparr>"
  show ?case
  proof (cases "r = 0")
    case False
    with Cons.prems rs have "c' = ?c1" by (simp add: conn_ControlStream_def)
    then have "calls c' = calls c @ [ControlStream sid en]" by simp
    then show ?thesis by (intro exI [of _ "[ControlStream sid en]"]) simp
  next
    case True
    with Cons.prems rs have "controlAll ?c1 en ids = Some (ok, c')"
      by (simp add: conn_ControlStream_def)
    from Cons.IH [OF this] obtain ctl where
      "calls c' = calls ?c1 @ ctl" "\<forall>x\<in>set ctl. \<exists>sid. x = ControlStream sid en"
      by blast
    then show ?thesis by (intro exI [of _ "ControlStream sid en # ctl"]) simp
  qed
qed

lemma activateStream_calls:
  assumes act: "activateStream drv ic fl tNs n = Some (res, ic', drv')"
  shows "\<exists>done new. channelsToCal drv = done @ channelsToCal drv'
      \<and> calls (conn drv') = calls (conn drv) @ new
      \<and> calibrations new = filter hasCalibration done
      \<and> (\<forall>st. res = Inr st \<longrightarrow> channelsToCal drv' = []
            \<and> (\<exists>cals ctl. new = cals @ Modify_SPI_Reg_bits_DC_BYP_RXTSP 0 # ctl
                  \<and> length cals = length (calibrations cals)
                  \<and> (\<forall>x\<in>set ctl. \<exists>sid. x = ControlStream sid True)))"
proof (cases "hwRate (conn drv) = 0")
  case True
  with act have "drv' = drv" "\<forall>st. res \<noteq> Inr st"
    by (auto simp: activateStream_def)
  then show ?thesis by (intro exI [of _ "[]"]) simp
next
  case rate: False
  obtain e remaining tr' where
    ca: "calibrateAll (actualBw drv) (rficPresent drv) (channelsToCal drv) (calls (conn drv))
           = (e, remaining, tr')"
    by (cases "calibrateAll (actualBw drv) (rficPresent drv) (channelsToCal drv) (calls (conn drv))")
       auto
  from calibrateAll_spec [OF ca] obtain dn cals where
    k: "channelsToCal drv = dn @ remaining" "tr' = calls (conn drv) @ cals"
       "calibrations cals = filter hasCalibration dn"
       "length cals = length (calibrations cals)"
       "e = None \<longrightarrow> remaining = []"
    by blast
  let ?drv1 = "drv\<lparr>channelsToCal := remaining, conn := (conn drv)\<lparr>calls := tr'\<rparr>\<rparr>"
  show ?thesis
  proof (cases "e = None \<and> rficPresent drv 0")
    case False
    with act rate ca have "drv' = ?drv1" "\<forall>st. res \<noteq> Inr st"
      by (auto simp: activateStream_def Let_def split: option.splits)
    with k show ?thesis
      by (intro exI [of _ dn] exI [of _ cals]) simp
  next
    case True
    then have rem: "remaining = []" using k(5) by simp
    let ?c2 = "(conn ?drv1)\<lparr>calls := calls (conn ?drv1) @ [Modify_SPI_Reg_bits_DC_BYP_RXTSP 0]\<rparr>"
    show ?thesis
    proof (cases "enabled ic")
      case en: True
      with act rate ca True have "drv' = ?drv1\<lparr>conn := ?c2\<rparr>"
        by (auto simp: activateStream_def Let_def)
      then have "channelsToCal drv' = []"
        "calls (conn drv') = calls (conn drv) @ (cals @ Modify_SPI_Reg_bits_DC_BYP_RXTSP 0 # [])"
        using rem k(2) by simp_all
      moreover have "calibrations (cals @ Modify_SPI_Reg_bits_DC_BYP_RXTSP 0 # [])
          = filter hasCalibration dn"
        using k(3) by simp
      moreover have "\<exists>cals' ctl.
          cals @ Modify_SPI_Reg_bits_DC_BYP_RXTSP 0 # [] = cals' @ Modify_SPI_Reg_bits_DC_BYP_RXTSP 0 # ctl
          \<and> length cals' = length (calibrations cals')
          \<and> (\<forall>x\<in>set ctl. \<exists>sid. x = ControlStream sid True)"
        using k(4) by (intro exI [of _ cals] exI [of _ "[]"]) simp
      ultimately show ?thesis
        using k(1) rem
        by (intro exI [of _ dn] exI [of _ "cals @ Modify_SPI_Reg_bits_DC_BYP_RXTSP 0 # []"])
           simp
    next
      case dis: False
      with act rate ca True obtain ok c3 where
        ctl: "controlAll ?c2 True (streamID ic) = Some (ok, c3)"
        and d: "drv' = ?drv1\<lparr>conn := c3\<rparr>"
        by (auto simp: activateStream_def Let_def split: option.splits bool.splits)
      from controlAll_calls [OF ctl] obtain cs where
        cs: "calls c3 = calls ?c2 @ cs" "\<forall>x\<in>set cs. \<exists>sid. x = ControlStream sid True"
        by blast
      have "channelsToCal drv' = []"
        "calls (conn drv') = calls (conn drv) @ (cals @ Modify_SPI_Reg_bits_DC_BYP_RXTSP 0 # cs)"
        using d rem k(2) cs(1) by simp_all
      moreover have "calibrations (cals @ Modify_SPI_Reg_bits_DC_BYP_RXTSP 0 # cs)
          = filter hasCalibration dn"
        using k(3) calibrations_controls [OF cs(2)] by simp
      moreover have "\<exists>cals' ctl.
          cals @ Modify_SPI_Reg_bits_DC_BYP_RXTSP 0 # cs = cals' @ Modify_SPI_Reg_bits_DC_BYP_RXTSP 0 # ctl
          \<and> length cals' = length (calibrations cals')
          \<and> (\<forall>x\<in>set ctl. \<exists>sid. x = ControlStream sid True)"
        using k(4) cs(2) by (intro exI [of _ cals] exI [of _ cs]) simp
      ultimately show ?thesis
        using k(1) rem
        by (intro exI [of _ dn] exI [of _ "cals @ Modify_SPI_Reg_bits_DC_BYP_RXTSP 0 # cs"])
           simp
    qed
  qed
qed

lemma setupChannels_calls:
  "setupChannels L dargs fmt args c config stream chs = Some (res, c') \<Longrightarrow>
   \<exists>new. calls c' = calls c @ new \<and> calibrations new = []"
proof (induction chs arbitrary: c config stream)
  case Nil
  then show ?case by simp
next
  case (Cons ch chs)
  show ?case
  proof (cases "channelConfig L dargs fmt args config ch")
    case (Inl e)
    with Cons.prems show ?thesis by simp
  next
    case (Inr config1)
    with Cons.prems obtain status sid rs where rs: "setupResps c = (status, sid) # rs"
      by (cases "setupResps c") (auto simp: conn_SetupStream_def)
    let ?c1 = "c\<lparr>setupResps := rs, calls := calls c @ [SetupStream config1]\<rparr>"
    let ?c2 = "?c1\<lparr>calls := calls ?c1 @ [GetStreamSize sid]\<rparr>"
    show ?thesis
    proof (cases "status = 0")
      case False
      with Cons.prems Inr rs have "c' = ?c1"
        by (simp add: conn_SetupStream_def)
      then show ?thesis by (intro exI [of _ "[SetupStream config1]"]) simp
    next
      case True
      with Cons.prems Inr rs obtain s1 where
        "setupChannels L dargs fmt args ?c2 config1 s1 chs = Some (res, c')"
        by (simp add: conn_SetupStream_def conn_GetStreamSize_def)
      from Cons.IH [OF this] obtain new where
        "calls c' = calls ?c2 @ new" "calibrations new = []"
        by blast
      then show ?thesis
        by (intro exI [of _ "SetupStream config1 # GetStreamSize sid # new"]) simp
    qed
  qed
qed

lemma fold_insort_insert:
  fixes xs :: "('k::linorder) list"
  shows "set (fold insort_insert ys xs) = set xs \<union> set ys"
    and "sorted xs \<Longrightarrow> sorted (fold insort_insert ys xs)"
    and "distinct xs \<Longrightarrow> distinct (fold insort_insert ys xs)"
proof -
  show "set (fold insort_insert ys xs) = set xs \<union> set ys"
    by (induction ys arbitrary: xs) (auto simp: set_insort_insert)
  show "sorted xs \<Longrightarrow> sorted (fold insort_insert ys xs)"
    by (induction ys arbitrary: xs) (auto simp: sorted_insort_insert)
  show "distinct xs \<Longrightarrow> distinct (fold insort_insert ys xs)"
    by (induction ys arbitrary: xs) (auto simp: distinct_insort_insert)
qed

lemma fold_register:
  "fold (\<lambda>ch s. insort_insert (dir, ch) s) chs xs = fold insort_insert (map (Pair dir) chs) xs"
  by (induction chs arbitrary: xs) auto

lemma setupStream_cal:
  assumes "setupStream L config0 raw drv dir fmt channels args = Some (res, drv')"
  shows "\<exists>new. calls (conn drv') = calls (conn drv) @ new \<and> calibrations new = []"
    and "sorted (channelsToCal drv) \<and> distinct (channelsToCal drv)
           \<Longrightarrow> sorted (channelsToCal drv') \<and> distinct (channelsToCal drv')"
    and "set (channelsToCal drv') =
           (case res of
              Inl e \<Rightarrow> set (channelsToCal drv)
            | Inr s \<Rightarrow> set (channelsToCal drv)
                \<union> Pair dir ` set (if channels = [] then [0] else channels))"
proof -
  let ?chs = "if channels = [] then [0] else channels"
  let ?stream = "raw\<lparr>streamID := [], direction := dir, elemSize := formatToSize L fmt, hasCmd := False\<rparr>"
  let ?config = "config0\<lparr>isTx := (dir = SOAPY_SDR_TX), performanceLatency := 0.5\<rparr>"
  from assms obtain r c' where
    sc: "setupChannels L (deviceArgs drv) fmt args (conn drv) ?config ?stream ?chs = Some (r, c')"
    by (cases "setupChannels L (deviceArgs drv) fmt args (conn drv) ?config ?stream ?chs")
       (auto simp: setupStream_def Let_def)
  from setupChannels_calls [OF sc] obtain new where
    new: "calls c' = calls (conn drv) @ new" "calibrations new = []"
    by blast
  have c': "conn drv' = c'"
    using assms sc by (auto simp: setupStream_def Let_def split: sum.splits)
  show "\<exists>new. calls (conn drv') = calls (conn drv) @ new \<and> calibrations new = []"
    using new c' by auto
  have cal: "channelsToCal drv' =
      (case res of Inl e \<Rightarrow> channelsToCal drv
       | Inr s \<Rightarrow> fold insort_insert (map (Pair dir) ?chs) (channelsToCal drv))"
    using assms sc by (auto simp: setupStream_def Let_def fold_register split: sum.splits)
  show "sorted (channelsToCal drv) \<and> distinct (channelsToCal drv)
           \<Longrightarrow> sorted (channelsToCal drv') \<and> distinct (channelsToCal drv')"
    unfolding cal by (cases res) (auto simp: fold_insort_insert)
  show "set (channelsToCal drv') =
           (case res of
              Inl e \<Rightarrow> set (channelsToCal drv)
            | Inr s \<Rightarrow> set (channelsToCal drv)
                \<union> Pair dir ` set (if channels = [] then [0] else channels))"
    unfolding cal by (cases res) (simp_all add: fold_insort_insert)
qed

lemma setupMany_cal:
  "setupMany L config0 drv setups = Some drv' \<Longrightarrow>
   (\<exists>new. calls (conn drv') = calls (conn drv) @ new \<and> calibrations new = [])
   \<and> (sorted (channelsToCal drv) \<and> distinct (channelsToCal drv)
        \<longrightarrow> sorted (channelsToCal drv') \<and> distinct (channelsToCal drv'))"
proof (induction setups arbitrary: drv)
  case Nil
  then show ?case by simp
next
  case (Cons s setups)
  obtain raw dir fmt channels args where s: "s = (raw, dir, fmt, channels, args)"
    by (cases s) auto
  from Cons.prems s obtain res drv1 where
    one: "setupStream L config0 raw drv dir fmt channels args = Some (res, drv1)"
    and rest: "setupMany L config0 drv1 setups = Some drv'"
    by (auto split: option.splits)
  from setupStream_cal(1) [OF one] obtain new1 where
    n1: "calls (conn drv1) = calls (conn drv) @ new1" "calibrations new1 = []"
    by blast
  from Cons.IH [OF rest] obtain new2 where
    n2: "calls (conn drv') = calls (conn drv1) @ new2" "calibrations new2 = []"
    and inv: "sorted (channelsToCal drv1) \<and> distinct (channelsToCal drv1)
        \<longrightarrow> sorted (channelsToCal drv') \<and> distinct (channelsToCal drv')"
    by blast
  have "calls (conn drv') = calls (conn drv) @ (new1 @ new2)" "calibrations (new1 @ new2) = []"
    using n1 n2 by simp_all
  then have "\<exists>new. calls (conn drv') = calls (conn drv) @ new \<and> calibrations new = []"
    by blast
  with inv setupStream_cal(2) [OF one] show ?case by blast
qed

lemma activateMany_cal:
  "activateMany drv acts = Some drv' \<Longrightarrow>
   \<exists>done new. channelsToCal drv = done @ channelsToCal drv'
      \<and> calls (conn drv') = calls (conn drv) @ new
      \<and> calibrations new = filter hasCalibration done"
proof (induction acts arbitrary: drv)
  case Nil
  then show ?case by (intro exI [of _ "[]"]) simp
next
  case (Cons a acts)
  obtain ic fl tNs n where a: "a = (ic, fl, tNs, n)" by (cases a) auto
  from Cons.prems a obtain res ic' drv1 where
    one: "activateStream drv ic fl tNs n = Some (res, ic', drv1)"
    and rest: "activateMany drv1 acts = Some drv'"
    by (auto split: option.splits)
  from activateStream_calls [OF one] obtain d1 new1 where
    k1: "channelsToCal drv = d1 @ channelsToCal drv1"
        "calls (conn drv1) = calls (conn drv) @ new1"
        "calibrations new1 = filter hasCalibration d1"
    by blast
  from Cons.IH [OF rest] obtain d2 new2 where
    k2: "channelsToCal drv1 = d2 @ channelsToCal drv'"
        "calls (conn drv') = calls (conn drv1) @ new2"
        "calibrations new2 = filter hasCalibration d2"
    by blast
  have "channelsToCal drv = (d1 @ d2) @ channelsToCal drv'"
    "calls (conn drv') = calls (conn drv) @ (new1 @ new2)"
    "calibrations (new1 @ new2) = filter hasCalibration (d1 @ d2)"
    using k1 k2 by simp_all
  then show ?case by blast
qed

lemma calibrateAll_ready:
  "\<forall>p\<in>set xs. hasCalibration p \<longrightarrow> rf (snd p) \<and> bw (fst p) (snd p) \<noteq> None \<Longrightarrow>
   calibrateAll bw rf xs tr
     = (None, [], tr @ map (calibrationCall bw) (filter hasCalibration xs))"
proof (induction xs arbitrary: tr)
  case Nil
  then show ?case by simp
next
  case (Cons x xs)
  obtain dir ch where x: "x = (dir, ch)" by (cases x) auto
  have ne: "SOAPY_SDR_RX \<noteq> SOAPY_SDR_TX"
    by (simp add: SOAPY_SDR_RX_def SOAPY_SDR_TX_def)
  have rest: "\<forall>p\<in>set xs. hasCalibration p \<longrightarrow> rf (snd p) \<and> bw (fst p) (snd p) \<noteq> None"
    using Cons.prems by simp
  note IH = Cons.IH [OF rest]
  consider (rx) "dir = SOAPY_SDR_RX" | (tx) "dir = SOAPY_SDR_TX"
    | (none) "dir \<noteq> SOAPY_SDR_RX" "dir \<noteq> SOAPY_SDR_TX"
    by blast
  then show ?case
  proof cases
    case rx
    with Cons.prems x obtain b where b: "rf ch" "bw dir ch = Some b"
      by (auto simp: hasCalibration_def)
    show ?thesis
      using rx ne x b IH [of "tr @ [CalibrateRx ch b]"]
      by (simp add: calibrate_def hasCalibration_def calibrationCall_def)
  next
    case tx
    with Cons.prems x obtain b where b: "rf ch" "bw dir ch = Some b"
      by (auto simp: hasCalibration_def)
    show ?thesis
      using tx ne x b IH [of "tr @ [CalibrateTx ch b]"]
      by (simp add: calibrate_def hasCalibration_def calibrationCall_def)
  next
    case none
    then show ?thesis
      using x IH [of tr] by (simp add: hasCalibration_def)
  qed
qed

lemma controlAll_total:
  "length ids \<le> length (controlResps c) \<Longrightarrow> \<exists>ok c'. controlAll c en ids = Some (ok, c')"
proof (induction ids arbitrary: c)
  case Nil
  then show ?case by auto
next
  case (Cons sid ids)
  then obtain r rs where rs: "controlResps c = r # rs"
    by (cases "controlResps c") auto
  let ?c1 = "c\<lparr>controlResps := rs, calls := calls c @ [ControlStream sid en]\<rparr>"
  have "length ids \<le> length (controlResps ?c1)"
    using Cons.prems rs by simp
  from Cons.IH [OF this] show ?case
    using rs by (auto simp: conn_ControlStream_def)
qed

lemma activateStream_ready:
  assumes rate: "hwRate (conn drv) \<noteq> 0"
    and ready: "\<forall>p\<in>set (channelsToCal drv). hasCalibration p
                  \<longrightarrow> rficPresent drv (snd p) \<and> actualBw drv (fst p) (snd p) \<noteq> None"
    and rf0: "rficPresent drv 0"
    and ctl: "enabled ic \<or> length (streamID ic) \<le> length (controlResps (conn drv))"
  shows "\<exists>st ic' drv' ctl.
       activateStream drv ic fl tNs n = Some (Inr st, ic', drv')
     \<and> channelsToCal drv' = []
     \<and> calls (conn drv') = calls (conn drv)
         @ map (calibrationCall (actualBw drv)) (filter hasCalibration (channelsToCal drv))
         @ Modify_SPI_Reg_bits_DC_BYP_RXTSP 0 # ctl
     \<and> (\<forall>x\<in>set ctl. \<exists>sid. x = ControlStream sid True)"
proof -
  let ?cals = "map (calibrationCall (actualBw drv)) (filter hasCalibration (channelsToCal drv))"
  have ca: "calibrateAll (actualBw drv) (rficPresent drv) (channelsToCal drv) (calls (conn drv))
      = (None, [], calls (conn drv) @ ?cals)"
    by (rule calibrateAll_ready [OF ready])
  let ?drv1 = "drv\<lparr>channelsToCal := [], conn := (conn drv)\<lparr>calls := calls (conn drv) @ ?cals\<rparr>\<rparr>"
  let ?c2 = "(conn ?drv1)\<lparr>calls := calls (conn ?drv1) @ [Modify_SPI_Reg_bits_DC_BYP_RXTSP 0]\<rparr>"
  let ?ic1 = "ic\<lparr>flags := fl, timeNs := tNs, numElems := n, hasCmd := True\<rparr>"
  show ?thesis
  proof (cases "enabled ic")
    case True
    then have "activateStream drv ic fl tNs n = Some (Inr 0, ?ic1, ?drv1\<lparr>conn := ?c2\<rparr>)"
      using rate ca rf0 by (simp add: activateStream_def Let_def)
    then show ?thesis
      by (intro exI [of _ 0] exI [of _ ?ic1] exI [of _ "?drv1\<lparr>conn := ?c2\<rparr>"] exI [of _ "[]"])
         simp
  next
    case False
    with ctl have "length (streamID ?ic1) \<le> length (controlResps ?c2)"
      by simp
    from controlAll_total [OF this, of True] obtain ok c3 where
      c3: "controlAll ?c2 True (streamID ?ic1) = Some (ok, c3)"
      by blast
    from controlAll_calls [OF c3] obtain cs where
      cs: "calls c3 = calls ?c2 @ cs" "\<forall>x\<in>set cs. \<exists>sid. x = ControlStream sid True"
      by blast
    have act: "activateStream drv ic fl tNs n
        = Some (Inr (if ok then 0 else SOAPY_SDR_STREAM_ERROR),
                if ok then ?ic1\<lparr>enabled := True\<rparr> else ?ic1, ?drv1\<lparr>conn := c3\<rparr>)"
      using rate ca rf0 False c3 by (simp add: activateStream_def Let_def)
    show ?thesis
      using cs
      by (intro exI [of _ "if ok then 0 else SOAPY_SDR_STREAM_ERROR"]
            exI [of _ "if ok then ?ic1\<lparr>enabled := True\<rparr> else ?ic1"]
            exI [of _ "?drv1\<lparr>conn := c3\<rparr>"] exI [of _ cs])
         (simp add: act)
  qed
qed

lemma calibrations_calibrationCall:
  "calibrations (map (calibrationCall bw) (filter hasCalibration xs)) = filter hasCalibration xs"
proof (induction xs)
  case Nil
  then show ?case by simp
next
  case (Cons x xs)
  obtain dir ch where x: "x = (dir, ch)" by (cases x) auto
  have ne: "SOAPY_SDR_RX \<noteq> SOAPY_SDR_TX"
    by (simp add: SOAPY_SDR_RX_def SOAPY_SDR_TX_def)
  show ?case
    using Cons.IH x ne by (auto simp: hasCalibration_def calibrationCall_def)
qed


lemma activateStream_ready_ret:
  assumes rate: "hwRate (conn drv) \<noteq> 0"
    and ready: "\<forall>p\<in>set (channelsToCal drv). hasCalibration p
                  \<longrightarrow> rficPresent drv (snd p) \<and> actualBw drv (fst p) (snd p) \<noteq> None"
    and rf0: "rficPresent drv 0"
    and act: "activateStream drv ic fl tNs n = Some (res, ic', drv')"
  shows "\<exists>st ctl. res = Inr st
     \<and> channelsToCal drv' = []
     \<and> calls (conn drv') = calls (conn drv)
         @ map (calibrationCall (actualBw drv)) (filter hasCalibration (channelsToCal drv))
         @ Modify_SPI_Reg_bits_DC_BYP_RXTSP 0 # ctl
     \<and> (\<forall>x\<in>set ctl. \<exists>sid. x = ControlStream sid True)"
proof -
  let ?cals = "map (calibrationCall (actualBw drv)) (filter hasCalibration (channelsToCal drv))"
  have ca: "calibrateAll (actualBw drv) (rficPresent drv) (channelsToCal drv) (calls (conn drv))
      = (None, [], calls (conn drv) @ ?cals)"
    by (rule calibrateAll_ready [OF ready])
  let ?drv1 = "drv\<lparr>channelsToCal := [], conn := (conn drv)\<lparr>calls := calls (conn drv) @ ?cals\<rparr>\<rparr>"
  let ?c2 = "(conn ?drv1)\<lparr>calls := calls (conn ?drv1) @ [Modify_SPI_Reg_bits_DC_BYP_RXTSP 0]\<rparr>"
  let ?ic1 = "ic\<lparr>flags := fl, timeNs := tNs, numElems := n, hasCmd := True\<rparr>"
  show ?thesis
  proof (cases "enabled ic")
    case True
    then have "activateStream drv ic fl tNs n = Some (Inr 0, ?ic1, ?drv1\<lparr>conn := ?c2\<rparr>)"
      using rate ca rf0 by (simp add: activateStream_def Let_def)
    with act have "res = Inr 0" "drv' = ?drv1\<lparr>conn := ?c2\<rparr>"
      by simp_all
    then show ?thesis
      by (intro exI [of _ 0] exI [of _ "[]"]) simp
  next
    case False
    with act rate ca rf0 obtain ok c3 where
      c3: "controlAll ?c2 True (streamID ?ic1) = Some (ok, c3)"
      and r: "res = Inr (if ok then 0 else SOAPY_SDR_STREAM_ERROR)" "drv' = ?drv1\<lparr>conn := c3\<rparr>"
      by (auto simp: activateStream_def Let_def split: option.splits bool.splits)
    from controlAll_calls [OF c3] obtain cs where
      cs: "calls c3 = calls ?c2 @ cs" "\<forall>x\<in>set cs. \<exists>sid. x = ControlStream sid True"
      by blast
    show ?thesis
      using cs r
      by (intro exI [of _ "if ok then 0 else SOAPY_SDR_STREAM_ERROR"] exI [of _ cs]) simp
  qed
qed

text \<open>
  Claim C5, as amended. Starting from a driver whose pending calibration set is empty, after
  any sequence of setupStream calls followed by any sequence of activateStream calls: the set
  holds every pair once (a successful setup adds its pairs, repeated registrations are
  merged); setup calibrates nothing; the activations calibrate every pair at most once, only
  pairs of the set, and a calibrated pair has left the set, to which no activation adds. When
  the sample rate is configured, a bandwidth and an RF chip are known for every member of the
  set that has a calibration routine, and chip 0 is there, an activateStream call on a handle
  that is enabled, or for whose channels the transport answers \<^verbatim>\<open>ControlStream\<close>,
  returns a status and has emptied the set, with exactly one calibration call per such
  member, in the order of the set, before the write to the DC corrector and the first
  \<^verbatim>\<open>ControlStream\<close> call; after the first of a sequence of activations the set is empty
  and the later activations calibrate nothing. With a sample rate of 0 activateStream throws
  and leaves the driver, and with it the set, as it was.
\<close>

theorem calibration_at_most_once:
  assumes init: "channelsToCal drvI = []"
    and setups: "setupMany L config0 drvI setups = Some drvS"
    and acts: "activateMany drvS acts = Some drvE"
  shows "distinct (channelsToCal drvS)
     \<and> (\<forall>raw d dir fmt channels args s d'.
           setupStream L config0 raw d dir fmt channels args = Some (Inr s, d')
           \<longrightarrow> set (channelsToCal d') = set (channelsToCal d)
                 \<union> Pair dir ` set (if channels = [] then [0] else channels))
     \<and> (\<exists>new. calls (conn drvS) = calls (conn drvI) @ new \<and> calibrations new = [])
     \<and> (\<exists>new. calls (conn drvE) = calls (conn drvS) @ new
           \<and> distinct (calibrations new)
           \<and> set (calibrations new) \<subseteq> set (channelsToCal drvS)
           \<and> set (channelsToCal drvE) \<subseteq> set (channelsToCal drvS)
           \<and> set (calibrations new) \<inter> set (channelsToCal drvE) = {})
     \<and> (\<forall>ic fl tNs n.
           hwRate (conn drvS) \<noteq> 0
         \<and> (\<forall>p\<in>set (channelsToCal drvS). hasCalibration p
               \<longrightarrow> rficPresent drvS (snd p) \<and> actualBw drvS (fst p) (snd p) \<noteq> None)
         \<and> rficPresent drvS 0
         \<and> (enabled ic \<or> length (streamID ic) \<le> length (controlResps (conn drvS)))
         \<longrightarrow> (\<exists>st ic' drvA ctl.
                 activateStream drvS ic fl tNs n = Some (Inr st, ic', drvA)
               \<and> channelsToCal drvA = []
               \<and> calls (conn drvA) = calls (conn drvS)
                   @ map (calibrationCall (actualBw drvS))
                       (filter hasCalibration (channelsToCal drvS))
                   @ Modify_SPI_Reg_bits_DC_BYP_RXTSP 0 # ctl
               \<and> (\<forall>x\<in>set ctl. \<exists>sid. x = ControlStream sid True)))
     \<and> (acts \<noteq> []
         \<and> hwRate (conn drvS) \<noteq> 0
         \<and> (\<forall>p\<in>set (channelsToCal drvS). hasCalibration p
               \<longrightarrow> rficPresent drvS (snd p) \<and> actualBw drvS (fst p) (snd p) \<noteq> None)
         \<and> rficPresent drvS 0
         \<longrightarrow> channelsToCal drvE = []
           \<and> (\<exists>rest. calls (conn drvE) = calls (conn drvS)
                   @ map (calibrationCall (actualBw drvS))
                       (filter hasCalibration (channelsToCal drvS))
                   @ rest
                 \<and> calibrations rest = []))
     \<and> (\<forall>ic fl tNs n.
           hwRate (conn drvS) = 0
           \<longrightarrow> activateStream drvS ic fl tNs n
               = Some (Inl (runtime_error
                   ''SoapyLMS7::activateStream() - the sample rate has not been configured!''),
                   ic, drvS))"
proof -
  from setupMany_cal [OF setups] init
  have s1: "\<exists>new. calls (conn drvS) = calls (conn drvI) @ new \<and> calibrations new = []"
    and dist: "distinct (channelsToCal drvS)"
    by auto
  have grow: "set (channelsToCal d') = set (channelsToCal d)
                 \<union> Pair dir ` set (if channels = [] then [0] else channels)"
    if "setupStream L config0 raw d dir fmt channels args = Some (Inr s, d')"
    for raw d dir fmt channels args s d'
    using setupStream_cal(3) [OF that] by simp
  then have g: "\<forall>raw d dir fmt channels args s d'.
           setupStream L config0 raw d dir fmt channels args = Some (Inr s, d')
           \<longrightarrow> set (channelsToCal d') = set (channelsToCal d)
                 \<union> Pair dir ` set (if channels = [] then [0] else channels)"
    by blast
  from activateMany_cal [OF acts] obtain dn new where
    k: "channelsToCal drvS = dn @ channelsToCal drvE"
       "calls (conn drvE) = calls (conn drvS) @ new"
       "calibrations new = filter hasCalibration dn"
    by blast
  have d2: "distinct (dn @ channelsToCal drvE)"
    using dist k(1) by simp
  have once: "\<exists>new. calls (conn drvE) = calls (conn drvS) @ new
           \<and> distinct (calibrations new)
           \<and> set (calibrations new) \<subseteq> set (channelsToCal drvS)
           \<and> set (channelsToCal drvE) \<subseteq> set (channelsToCal drvS)
           \<and> set (calibrations new) \<inter> set (channelsToCal drvE) = {}"
  proof (intro exI [of _ new] conjI)
    show "calls (conn drvE) = calls (conn drvS) @ new" by (rule k(2))
    show "distinct (calibrations new)" using d2 k(3) by simp
    show "set (calibrations new) \<subseteq> set (channelsToCal drvS)" using k(1,3) by auto
    show "set (channelsToCal drvE) \<subseteq> set (channelsToCal drvS)" using k(1) by auto
    show "set (calibrations new) \<inter> set (channelsToCal drvE) = {}" using d2 k(3) by auto
  qed
  let ?ready = "\<forall>p\<in>set (channelsToCal drvS). hasCalibration p
               \<longrightarrow> rficPresent drvS (snd p) \<and> actualBw drvS (fst p) (snd p) \<noteq> None"
  let ?cals = "map (calibrationCall (actualBw drvS)) (filter hasCalibration (channelsToCal drvS))"
  have f: "\<forall>ic fl tNs n.
           hwRate (conn drvS) \<noteq> 0 \<and> ?ready \<and> rficPresent drvS 0
         \<and> (enabled ic \<or> length (streamID ic) \<le> length (controlResps (conn drvS)))
         \<longrightarrow> (\<exists>st ic' drvA ctl.
                 activateStream drvS ic fl tNs n = Some (Inr st, ic', drvA)
               \<and> channelsToCal drvA = []
               \<and> calls (conn drvA) = calls (conn drvS) @ ?cals
                   @ Modify_SPI_Reg_bits_DC_BYP_RXTSP 0 # ctl
               \<and> (\<forall>x\<in>set ctl. \<exists>sid. x = ControlStream sid True))"
    using activateStream_ready [of drvS] by blast
  have sq: "channelsToCal drvE = []
           \<and> (\<exists>rest. calls (conn drvE) = calls (conn drvS) @ ?cals @ rest
                 \<and> calibrations rest = [])"
    if ne: "acts \<noteq> []" and rate: "hwRate (conn drvS) \<noteq> 0" and ready: ?ready
      and rf0: "rficPresent drvS 0"
  proof -
    from ne obtain ic fl tNs n later where a: "acts = (ic, fl, tNs, n) # later"
      by (cases acts) auto
    from acts a obtain res ic' drvA where
      one: "activateStream drvS ic fl tNs n = Some (res, ic', drvA)"
      and rest: "activateMany drvA later = Some drvE"
      by (auto split: option.splits)
    from activateStream_ready_ret [OF rate ready rf0 one] obtain ctl where
      k1: "channelsToCal drvA = []"
          "calls (conn drvA) = calls (conn drvS) @ ?cals @ Modify_SPI_Reg_bits_DC_BYP_RXTSP 0 # ctl"
          "\<forall>x\<in>set ctl. \<exists>sid. x = ControlStream sid True"
      by blast
    from activateMany_cal [OF rest] obtain d2 new2 where
      k2: "channelsToCal drvA = d2 @ channelsToCal drvE"
          "calls (conn drvE) = calls (conn drvA) @ new2"
          "calibrations new2 = filter hasCalibration d2"
      by blast
    have e2: "channelsToCal drvE = []" "d2 = []"
      using k1(1) k2(1) by simp_all
    have "calls (conn drvE)
            = calls (conn drvS) @ ?cals @ (Modify_SPI_Reg_bits_DC_BYP_RXTSP 0 # ctl @ new2)"
      using k1(2) k2(2) by simp
    moreover have "calibrations (Modify_SPI_Reg_bits_DC_BYP_RXTSP 0 # ctl @ new2) = []"
      using k2(3) e2 calibrations_controls [OF k1(3)] by simp
    ultimately show ?thesis
      using e2(1) by blast
  qed
  then have sq': "acts \<noteq> [] \<and> hwRate (conn drvS) \<noteq> 0 \<and> ?ready \<and> rficPresent drvS 0
         \<longrightarrow> channelsToCal drvE = []
           \<and> (\<exists>rest. calls (conn drvE) = calls (conn drvS) @ ?cals @ rest
                 \<and> calibrations rest = [])"
    by blast
  have r0: "\<forall>ic fl tNs n.
           hwRate (conn drvS) = 0
           \<longrightarrow> activateStream drvS ic fl tNs n
               = Some (Inl (runtime_error
                   ''SoapyLMS7::activateStream() - the sample rate has not been configured!''),
                   ic, drvS)"
    by (simp add: activateStream_def)
  show ?thesis
    by (intro conjI) (fact dist, fact g, fact s1, fact once, fact f, fact sq', fact r0)
qed

lemma cal_setups: "setupMany lib0 config_default drvCal calSetups = Some drvCalS"
  by (simp add: calSetups_def drvCal_def drvCalS_def setupCalls_def setupStream_def drv0_def
      conn0_def lib0_def raw_stream_def config_default_def channelConfig_def setFormat_def
      setBufferLength_def setLatency_def conn_SetupStream_def conn_GetStreamSize_def
      SOAPY_SDR_RX_def SOAPY_SDR_TX_def SOAPY_SDR_CF32_def SOAPY_SDR_CS16_def SOAPY_SDR_CS12_def
      insort_insert_key_def)

lemma cal_acts: "activateMany drvCalS calActs = Some drvCalE"
  by (simp add: calActs_def drvCalS_def drvCalE_def setupCalls_def calibrationCalls_def
      activateStream_def
      calibrate_def stream_two_def raw_stream_def drv0_def conn0_def conn_ControlStream_def
      SOAPY_SDR_RX_def SOAPY_SDR_TX_def Let_def)

lemma cal_expected:
  "map (calibrationCall (actualBw drvCalS)) (filter hasCalibration (channelsToCal drvCalS))
     = calibrationCalls"
  by (simp add: drvCalS_def drv0_def calibrationCall_def hasCalibration_def calibrationCalls_def
      SOAPY_SDR_RX_def SOAPY_SDR_TX_def)

theorem calibration_at_most_once_witness:
  "channelsToCal drvCal = []
   \<and> setupMany lib0 config_default drvCal calSetups = Some drvCalS
   \<and> activateMany drvCalS calActs = Some drvCalE
   \<and> channelsToCal drvCalS = [(SOAPY_SDR_TX, 0), (SOAPY_SDR_RX, 0), (SOAPY_SDR_RX, 1)]
   \<and> hwRate (conn drvCalS) \<noteq> 0
   \<and> list_all (\<lambda>p. rficPresent drvCalS (snd p) \<and> actualBw drvCalS (fst p) (snd p) \<noteq> None)
        (channelsToCal drvCalS)
   \<and> rficPresent drvCalS 0
   \<and> length (streamID stream_two) \<le> length (controlResps (conn drvCalS))
   \<and> distinct (channelsToCal drvCalS)
   \<and> (\<exists>st ic' drvA ctl.
         activateStream drvCalS stream_two 0 0 0 = Some (Inr st, ic', drvA)
       \<and> channelsToCal drvA = []
       \<and> calls (conn drvA) = calls (conn drvCalS) @ calibrationCalls
           @ Modify_SPI_Reg_bits_DC_BYP_RXTSP 0 # ctl)
   \<and> channelsToCal drvCalE = []
   \<and> (\<exists>rest. calls (conn drvCalE) = calls (conn drvCalS) @ calibrationCalls @ rest
         \<and> calibrations rest = [])"
proof -
  have init: "channelsToCal drvCal = []"
    by (simp add: drvCal_def drv0_def)
  have cs: "channelsToCal drvCalS = [(SOAPY_SDR_TX, 0), (SOAPY_SDR_RX, 0), (SOAPY_SDR_RX, 1)]"
    by (simp add: drvCalS_def SOAPY_SDR_RX_def SOAPY_SDR_TX_def)
  have rate: "hwRate (conn drvCalS) \<noteq> 0"
    by (simp add: drvCalS_def conn0_def)
  have ready: "\<forall>p\<in>set (channelsToCal drvCalS). hasCalibration p
         \<longrightarrow> rficPresent drvCalS (snd p) \<and> actualBw drvCalS (fst p) (snd p) \<noteq> None"
    by (simp add: drvCalS_def drv0_def)
  have rf0: "rficPresent drvCalS 0"
    by (simp add: drvCalS_def drv0_def)
  have ctl: "length (streamID stream_two) \<le> length (controlResps (conn drvCalS))"
    by (simp add: drvCalS_def stream_two_def raw_stream_def)
  have ne: "calActs \<noteq> []"
    by (simp add: calActs_def)
  note th = calibration_at_most_once [OF init cal_setups cal_acts]
  from th have dist: "distinct (channelsToCal drvCalS)"
    by (elim conjE)
  from th have "\<forall>ic fl tNs n.
           hwRate (conn drvCalS) \<noteq> 0
         \<and> (\<forall>p\<in>set (channelsToCal drvCalS). hasCalibration p
               \<longrightarrow> rficPresent drvCalS (snd p) \<and> actualBw drvCalS (fst p) (snd p) \<noteq> None)
         \<and> rficPresent drvCalS 0
         \<and> (enabled ic \<or> length (streamID ic) \<le> length (controlResps (conn drvCalS)))
         \<longrightarrow> (\<exists>st ic' drvA ctl.
                 activateStream drvCalS ic fl tNs n = Some (Inr st, ic', drvA)
               \<and> channelsToCal drvA = []
               \<and> calls (conn drvA) = calls (conn drvCalS)
                   @ map (calibrationCall (actualBw drvCalS))
                       (filter hasCalibration (channelsToCal drvCalS))
                   @ Modify_SPI_Reg_bits_DC_BYP_RXTSP 0 # ctl
               \<and> (\<forall>x\<in>set ctl. \<exists>sid. x = ControlStream sid True))"
    by (elim conjE)
  with rate ready rf0 ctl have first: "\<exists>st ic' drvA ctl.
         activateStream drvCalS stream_two 0 0 0 = Some (Inr st, ic', drvA)
       \<and> channelsToCal drvA = []
       \<and> calls (conn drvA) = calls (conn drvCalS) @ calibrationCalls
           @ Modify_SPI_Reg_bits_DC_BYP_RXTSP 0 # ctl"
    unfolding cal_expected by blast
  from th have "calActs \<noteq> []
         \<and> hwRate (conn drvCalS) \<noteq> 0
         \<and> (\<forall>p\<in>set (channelsToCal drvCalS). hasCalibration p
               \<longrightarrow> rficPresent drvCalS (snd p) \<and> actualBw drvCalS (fst p) (snd p) \<noteq> None)
         \<and> rficPresent drvCalS 0
         \<longrightarrow> channelsToCal drvCalE = []
           \<and> (\<exists>rest. calls (conn drvCalE) = calls (conn drvCalS)
                   @ map (calibrationCall (actualBw drvCalS))
                       (filter hasCalibration (channelsToCal drvCalS))
                   @ rest
                 \<and> calibrations rest = [])"
    by (elim conjE)
  with ne rate ready rf0 have sq: "channelsToCal drvCalE = []
       \<and> (\<exists>rest. calls (conn drvCalE) = calls (conn drvCalS) @ calibrationCalls @ rest
         \<and> calibrations rest = [])"
    unfolding cal_expected by blast
  have ready': "list_all (\<lambda>p. rficPresent drvCalS (snd p)
        \<and> actualBw drvCalS (fst p) (snd p) \<noteq> None) (channelsToCal drvCalS)"
    by (simp add: drvCalS_def drv0_def)
  show ?thesis
    using init cal_setups cal_acts cs rate ready' rf0 ctl dist first sq
    by (intro conjI) blast+
qed

text \<open>
  The claim as stated, with the set emptied by the first activation after any setup, fails
  when the sample rate has not been configured: setupStream registers the RX channel 0, the
  activation throws, the pair is still in the set and no calibration call has been made.
\<close>

theorem calibration_undrained_counterexample:
  "channelsToCal drvRate0 = []
   \<and> setupStream lib0 config_default raw_stream drvRate0 SOAPY_SDR_RX ''CS16'' [0] Map.empty
       = Some (Inr (raw_stream\<lparr>streamID := [10], direction := 1, elemSize := 4\<rparr>), drvRate0S)
   \<and> channelsToCal drvRate0S = [(SOAPY_SDR_RX, 0)]
   \<and> activateStream drvRate0S (raw_stream\<lparr>streamID := [10], direction := 1, elemSize := 4\<rparr>) 0 0 0
       = Some (Inl (runtime_error
           ''SoapyLMS7::activateStream() - the sample rate has not been configured!''),
           raw_stream\<lparr>streamID := [10], direction := 1, elemSize := 4\<rparr>, drvRate0S)
   \<and> calibrations (calls (conn drvRate0S)) = []"
  by (simp add: setupStream_def activateStream_def drvRate0_def drvRate0S_def drv0_def conn0_def
      lib0_def raw_stream_def config_default_def channelConfig_def setFormat_def
      setBufferLength_def setLatency_def conn_SetupStream_def conn_GetStreamSize_def
      SOAPY_SDR_RX_def SOAPY_SDR_TX_def SOAPY_SDR_CF32_def SOAPY_SDR_CS16_def SOAPY_SDR_CS12_def
      insort_insert_key_def)

end
